theory Spec2Isabelle
  imports Main "HOL-Library.Word" "HOL-Library.More_List"
begin

unbundle bit_operations_syntax

section \<open>Data model of sd\_io.h\<close>

type_synonym byte = "8 word"

text \<open>The result codes of the SD functions (\<open>enum SDRESULTS\<close>).\<close>

datatype SDRESULTS =
    SD_OK | SD_NOINIT | SD_ERROR | SD_PARERR | SD_BUSY | SD_REJECT | SD_NORESPONSE

text \<open>The device object (\<open>struct _SD_DEV\<close>): note the 16-bit \<open>last_sector\<close>.\<close>

record SD_DEV =
  mount :: "8 word"
  cardtype :: "8 word"
  last_sector :: "16 word"

text \<open>Command bytes and card types, as \<open>#define\<close>d in the header.\<close>

definition CMD0 :: byte where "CMD0 = 0x40 + 0"
definition CMD1 :: byte where "CMD1 = 0x40 + 1"
definition ACMD41 :: byte where "ACMD41 = 0xC0 + 41"
definition CMD8 :: byte where "CMD8 = 0x40 + 8"
definition CMD9 :: byte where "CMD9 = 0x40 + 9"
definition CMD16 :: byte where "CMD16 = 0x40 + 16"
definition CMD17 :: byte where "CMD17 = 0x40 + 17"
definition CMD24 :: byte where "CMD24 = 0x40 + 24"
definition CMD55 :: byte where "CMD55 = 0x40 + 55"
definition CMD58 :: byte where "CMD58 = 0x40 + 58"
definition CMD59 :: byte where "CMD59 = 0x40 + 59"

definition SD_INIT_TRYS :: "8 word" where "SD_INIT_TRYS = 0x03"

definition SDCT_MMC :: byte where "SDCT_MMC = 0x01"
definition SDCT_SD1 :: byte where "SDCT_SD1 = 0x02"
definition SDCT_SD2 :: byte where "SDCT_SD2 = 0x04"
definition SDCT_BLOCK :: byte where "SDCT_BLOCK = 0x08"

definition SD_BLK_SIZE :: nat where "SD_BLK_SIZE = 512"
definition SD_IO_WRITE_TIMEOUT_WAIT :: nat where "SD_IO_WRITE_TIMEOUT_WAIT = 250"

lemmas cmd_defs = CMD0_def CMD1_def ACMD41_def CMD8_def CMD9_def CMD16_def CMD17_def
  CMD24_def CMD55_def CMD58_def CMD59_def

section \<open>The transport (spi\_io.h)\<close>

text \<open>
  Modelled from the spec: the transport adapter (\<open>spi_io.h\<close>, with \<open>SPI_RW\<close>,
  \<open>SPI_CS_Low\<close>, \<open>SPI_CS_High\<close>, \<open>SPI_Freq_Low\<close>, \<open>SPI_Freq_High\<close>, \<open>SPI_Init\<close>,
  \<open>SPI_Release\<close>, \<open>SPI_Timer_On\<close>, \<open>SPI_Timer_Status\<close> and \<open>SPI_Timer_Off\<close>) is not among
  the sources. It exchanges one byte for one byte, drives the chip select and the clock,
  and has one millisecond timer that can be asked whether it still runs. The model holds
  what the driver can observe of it:
  \<^item> \<open>miso\<close>: the bytes the card shifts in at the successive calls of \<open>SPI_RW\<close>; the
    data line idles high, so once the list is used up every exchange reads \<open>0xFF\<close>;
  \<^item> \<open>tmr\<close>: the answers of the successive calls of \<open>SPI_Timer_Status\<close> (\<open>True\<close> while
    the timer runs); once the list is used up the timer has expired;
  \<^item> \<open>wire\<close>: everything the driver has done to the transport so far, in order.
  Every run of the driver against a transport whose timers expire is the run against one
  such script. \<open>SPI_Release\<close> and the other calls without a result are events of the log;
  what the transport does in them is its own affair.
\<close>

datatype spi_event =
    Xfer byte | CS_Low | CS_High | Freq_Low | Freq_High | Init | Release
  | Timer_On nat | Timer_Off

record spi =
  miso :: "byte list"
  tmr :: "bool list"
  wire :: "spi_event list"

definition emit :: "spi_event \<Rightarrow> spi \<Rightarrow> spi" where
  "emit e s = s\<lparr>wire := wire s @ [e]\<rparr>"

definition SPI_RW :: "byte \<Rightarrow> spi \<Rightarrow> byte \<times> spi" where
  "SPI_RW d s =
     (case miso s of
        [] \<Rightarrow> (0xFF, emit (Xfer d) s)
      | b # bs \<Rightarrow> (b, emit (Xfer d) (s\<lparr>miso := bs\<rparr>)))"

definition SPI_Timer_Status :: "spi \<Rightarrow> bool \<times> spi" where
  "SPI_Timer_Status s =
     (case tmr s of
        [] \<Rightarrow> (False, s)
      | t # ts \<Rightarrow> (t, s\<lparr>tmr := ts\<rparr>))"

definition SPI_Timer_On :: "nat \<Rightarrow> spi \<Rightarrow> spi" where
  "SPI_Timer_On ms = emit (Timer_On ms)"

definition SPI_Timer_Off :: "spi \<Rightarrow> spi" where
  "SPI_Timer_Off = emit Timer_Off"

definition SPI_CS_Low :: "spi \<Rightarrow> spi" where "SPI_CS_Low = emit CS_Low"
definition SPI_CS_High :: "spi \<Rightarrow> spi" where "SPI_CS_High = emit CS_High"
definition SPI_Freq_Low :: "spi \<Rightarrow> spi" where "SPI_Freq_Low = emit Freq_Low"
definition SPI_Freq_High :: "spi \<Rightarrow> spi" where "SPI_Freq_High = emit Freq_High"
definition SPI_Init :: "spi \<Rightarrow> spi" where "SPI_Init = emit Init"
definition SPI_Release :: "spi \<Rightarrow> spi" where "SPI_Release = emit Release"

lemmas spi_defs = emit_def SPI_RW_def SPI_Timer_Status_def SPI_Timer_On_def SPI_Timer_Off_def
  SPI_CS_Low_def SPI_CS_High_def SPI_Freq_Low_def SPI_Freq_High_def SPI_Init_def
  SPI_Release_def

text \<open>
  The byte the card delivers at the \<open>i\<close>-th next exchange, and whether the timer still
  runs at the \<open>i\<close>-th next status call.
\<close>

definition rx :: "spi \<Rightarrow> nat \<Rightarrow> byte" where
  "rx s i = nth_default 0xFF (miso s) i"

definition tick :: "spi \<Rightarrow> nat \<Rightarrow> bool" where
  "tick s i = nth_default False (tmr s) i"

subsection \<open>The transport primitives as state transformers\<close>

lemma nth_default_drop_add:
  "nth_default d (drop n xs) j = nth_default d xs (n + j)"
  by (auto simp: nth_default_def)

lemma SPI_RW_eq:
  "SPI_RW d s = (rx s 0, \<lparr>miso = drop 1 (miso s), tmr = tmr s, wire = wire s @ [Xfer d]\<rparr>)"
  by (cases s; cases "miso s") (simp_all add: SPI_RW_def emit_def rx_def)

lemma SPI_Timer_Status_eq:
  "SPI_Timer_Status s = (tick s 0, \<lparr>miso = miso s, tmr = drop 1 (tmr s), wire = wire s\<rparr>)"
  by (cases s; cases "tmr s") (simp_all add: SPI_Timer_Status_def tick_def)

lemma emit_eq:
  "emit e s = \<lparr>miso = miso s, tmr = tmr s, wire = wire s @ [e]\<rparr>"
  by (cases s) (simp add: emit_def)

lemmas spi_eqs = SPI_RW_eq SPI_Timer_Status_eq
  SPI_Timer_On_def SPI_Timer_Off_def SPI_CS_Low_def SPI_CS_High_def SPI_Freq_Low_def
  SPI_Freq_High_def SPI_Init_def SPI_Release_def emit_eq

lemma rx_mk [simp]: "rx \<lparr>miso = drop n (miso s), tmr = t, wire = w\<rparr> j = rx s (n + j)"
  by (simp add: rx_def nth_default_drop_add)

lemma tick_mk [simp]: "tick \<lparr>miso = m, tmr = drop n (tmr s), wire = w\<rparr> j = tick s (n + j)"
  by (simp add: tick_def nth_default_drop_add)

lemma tick_mk0 [simp]: "tick \<lparr>miso = m, tmr = tmr s, wire = w\<rparr> j = tick s j"
  by (simp add: tick_def)

lemma rx_mk0 [simp]: "rx \<lparr>miso = miso s, tmr = t, wire = w\<rparr> j = rx s j"
  by (simp add: rx_def)

text \<open>Counting down a machine integer that is not 0 makes it smaller.\<close>

lemma unat_pred_less: "(m::'a::len word) \<noteq> 0 \<Longrightarrow> unat (m - 1) < unat m"
  by (simp add: unat_minus_one unat_gt_0)

lemma dec_measure: "(n::'a::len word) \<noteq> 1 \<Longrightarrow> unat (n - 2) < unat (n - 1)"
  using unat_pred_less [of "n - 1"] by simp

section \<open>Private methods\<close>

text \<open>
  The polling loops of the driver all have the shape
  \<^verbatim>\<open>do { b = SPI_RW(0xFF); } while (p(b) && (SPI_Timer_Status()==TRUE));\<close>
  The timer is asked only when \<open>p b\<close> holds (\<open>&&\<close> evaluates left to right).
\<close>

function poll_while :: "(byte \<Rightarrow> bool) \<Rightarrow> spi \<Rightarrow> byte \<times> spi" where
  "poll_while p s =
     (let (b, s1) = SPI_RW 0xFF s in
      if p b then
        (let (t, s2) = SPI_Timer_Status s1 in
         if t then poll_while p s2 else (b, s2))
      else (b, s1))"
  by pat_completeness auto
termination
  by (relation "measure (\<lambda>(p, s). length (tmr s))")
     (auto simp: spi_defs split: list.splits)

declare poll_while.simps [simp del]

lemma poll_while_run:
  "(\<forall>j<i. p (rx s j) \<and> tick s j) \<Longrightarrow> \<not> p (rx s i) \<or> \<not> tick s i \<Longrightarrow>
   poll_while p s =
     (rx s i, \<lparr>miso = drop (Suc i) (miso s),
               tmr = drop (if p (rx s i) then Suc i else i) (tmr s),
               wire = wire s @ replicate (Suc i) (Xfer 0xFF)\<rparr>)"
proof (induction i arbitrary: s)
  case 0
  then show ?case
    by (subst poll_while.simps) (auto simp: SPI_RW_eq SPI_Timer_Status_eq)
next
  case (Suc i)
  let ?s2 = "\<lparr>miso = drop 1 (miso s), tmr = drop 1 (tmr s), wire = wire s @ [Xfer 0xFF]\<rparr>"
  from Suc.prems have h0: "p (rx s 0)" "tick s 0" by auto
  have a: "\<forall>j<i. p (rx ?s2 j) \<and> tick ?s2 j" using Suc.prems(1) by simp
  have b: "\<not> p (rx ?s2 i) \<or> \<not> tick ?s2 i" using Suc.prems(2) by simp
  have step: "poll_while p s = poll_while p ?s2"
    using h0 by (subst poll_while.simps) (simp add: SPI_RW_eq SPI_Timer_Status_eq)
  show ?case
    unfolding step Suc.IH [OF a b]
    by (simp add: replicate_append_same)
qed

lemma poll_index:
  "\<exists>i. (\<forall>j<i. p (rx s j) \<and> tick s j) \<and> (\<not> p (rx s i) \<or> \<not> tick s i)"
proof -
  have "\<not> tick s (length (tmr s))" by (simp add: tick_def nth_default_def)
  then have ex: "\<exists>i. \<not> (p (rx s i) \<and> tick s i)" by blast
  define i where "i = (LEAST i. \<not> (p (rx s i) \<and> tick s i))"
  have "\<not> (p (rx s i) \<and> tick s i)" unfolding i_def using ex by (rule LeastI_ex)
  moreover have "\<forall>j<i. p (rx s j) \<and> tick s j"
    unfolding i_def using not_less_Least by blast
  ultimately show ?thesis by blast
qed

text \<open>\<open>__SD_Power_Of_Two\<close>: \<open>((uint32_t) 1) << e\<close>.\<close>

definition SD_Power_Of_Two :: "8 word \<Rightarrow> 32 word" where
  "SD_Power_Of_Two e = push_bit (unat e) 1"

text \<open>
  The part of \<open>__SD_Send_Cmd\<close> after the application-command prefix: select the card,
  send the six bytes of the command, wait up to 5 ms for the response.
\<close>

definition SD_Send_Frame :: "byte \<Rightarrow> 32 word \<Rightarrow> spi \<Rightarrow> byte \<times> spi" where
  "SD_Send_Frame cmd arg s =
     (let s = SPI_CS_High s;
          s = snd (SPI_RW 0xFF s);
          s = SPI_CS_Low s;
          s = snd (SPI_RW 0xFF s);
          s = snd (SPI_RW cmd s);
          s = snd (SPI_RW (ucast (drop_bit 24 arg)) s);
          s = snd (SPI_RW (ucast (drop_bit 16 arg)) s);
          s = snd (SPI_RW (ucast (drop_bit 8 arg)) s);
          s = snd (SPI_RW (ucast (drop_bit 0 arg)) s);
          crc = 0x01;
          crc = (if cmd = CMD0 then 0x95 else crc);
          crc = (if cmd = CMD8 then 0x87 else crc);
          s = snd (SPI_RW crc s);
          s = SPI_Timer_On 5 s;
          (res, s) = poll_while (\<lambda>res. res AND 0x80 \<noteq> 0) s;
          s = SPI_Timer_Off s
      in (res, s))"

lemma SD_Send_Frame_run:
  assumes "\<forall>j<i. rx s (8 + j) AND 0x80 \<noteq> 0 \<and> tick s j"
      and "rx s (8 + i) AND 0x80 = 0 \<or> \<not> tick s i"
  shows "SD_Send_Frame cmd arg s =
     (rx s (8 + i),
      \<lparr>miso = drop (9 + i) (miso s),
       tmr = drop (if rx s (8 + i) AND 0x80 \<noteq> 0 then Suc i else i) (tmr s),
       wire = wire s @
         [CS_High, Xfer 0xFF, CS_Low, Xfer 0xFF,
          Xfer cmd, Xfer (ucast (drop_bit 24 arg)), Xfer (ucast (drop_bit 16 arg)),
          Xfer (ucast (drop_bit 8 arg)), Xfer (ucast arg),
          Xfer (if cmd = CMD8 then 0x87 else if cmd = CMD0 then 0x95 else 0x01),
          Timer_On 5]
         @ replicate (Suc i) (Xfer 0xFF) @ [Timer_Off]\<rparr>)"
proof -
  let ?c = "if cmd = CMD8 then 0x87 else if cmd = CMD0 then 0x95 else (0x01::byte)"
  let ?S = "\<lparr>miso = drop 8 (miso s), tmr = tmr s,
     wire = wire s @ [CS_High, Xfer 0xFF, CS_Low, Xfer 0xFF,
          Xfer cmd, Xfer (ucast (drop_bit 24 arg)), Xfer (ucast (drop_bit 16 arg)),
          Xfer (ucast (drop_bit 8 arg)), Xfer (ucast arg), Xfer ?c, Timer_On 5]\<rparr>"
  have a: "\<forall>j<i. rx ?S j AND 0x80 \<noteq> 0 \<and> tick ?S j" using assms(1) by simp
  have b: "\<not> rx ?S i AND 0x80 \<noteq> 0 \<or> \<not> tick ?S i" using assms(2) by simp
  have "SD_Send_Frame cmd arg s =
     (let (res, s1) = poll_while (\<lambda>res. res AND 0x80 \<noteq> 0) ?S in (res, SPI_Timer_Off s1))"
    by (simp add: SD_Send_Frame_def spi_eqs cmd_defs eval_nat_numeral)
  also note poll_while_run [where p = "\<lambda>res. res AND 0x80 \<noteq> 0", OF a b]
  finally show ?thesis by (simp add: spi_eqs)
qed


lemma SD_Send_Frame_ex:
  "\<exists>i k. SD_Send_Frame cmd arg s =
     (rx s (8 + i),
      \<lparr>miso = drop (9 + i) (miso s), tmr = drop k (tmr s),
       wire = wire s @
         [CS_High, Xfer 0xFF, CS_Low, Xfer 0xFF,
          Xfer cmd, Xfer (ucast (drop_bit 24 arg)), Xfer (ucast (drop_bit 16 arg)),
          Xfer (ucast (drop_bit 8 arg)), Xfer (ucast arg),
          Xfer (if cmd = CMD8 then 0x87 else if cmd = CMD0 then 0x95 else 0x01),
          Timer_On 5]
         @ replicate (Suc i) (Xfer 0xFF) @ [Timer_Off]\<rparr>)"
proof -
  let ?S = "\<lparr>miso = drop 8 (miso s), tmr = tmr s, wire = []\<rparr>"
  obtain i where i: "\<forall>j<i. rx ?S j AND 0x80 \<noteq> 0 \<and> tick ?S j"
      "\<not> rx ?S i AND 0x80 \<noteq> 0 \<or> \<not> tick ?S i"
    using poll_index [of "\<lambda>res. res AND 0x80 \<noteq> 0" ?S] by blast
  have a: "\<forall>j<i. rx s (8 + j) AND 0x80 \<noteq> 0 \<and> tick s j" using i(1) by simp
  have b: "rx s (8 + i) AND 0x80 = 0 \<or> \<not> tick s i" using i(2) by simp
  show ?thesis using SD_Send_Frame_run [OF a b] by blast
qed

lemma SD_Send_Frame_tmr: "length (tmr (snd (SD_Send_Frame cmd arg s))) \<le> length (tmr s)"
proof -
  obtain i k where "tmr (snd (SD_Send_Frame cmd arg s)) = drop k (tmr s)"
    using SD_Send_Frame_ex [of cmd arg s] by force
  then show ?thesis by simp
qed

text \<open>
  \<open>__SD_Send_Cmd\<close>: a command with bit 7 set is an application command, sent as
  \<open>CMD55\<close> followed by the command itself; the function calls itself for \<open>CMD55\<close>.
\<close>

function SD_Send_Cmd :: "byte \<Rightarrow> 32 word \<Rightarrow> spi \<Rightarrow> byte \<times> spi" where
  "SD_Send_Cmd cmd arg s =
     (if cmd AND 0x80 \<noteq> 0 then
        (let (res, s1) = SD_Send_Cmd CMD55 0 s in
         if res > 1 then (res, s1)
         else SD_Send_Frame (cmd AND 0x7F) arg s1)
      else SD_Send_Frame cmd arg s)"
  by pat_completeness auto
termination
  by (relation "measure (\<lambda>(cmd, arg, s). if cmd AND 0x80 \<noteq> 0 then 1 else 0)")
     (auto simp: CMD55_def)

declare SD_Send_Cmd.simps [simp del]

lemma SD_Send_Cmd_plain:
  "cmd AND 0x80 = 0 \<Longrightarrow> SD_Send_Cmd cmd arg s = SD_Send_Frame cmd arg s"
  by (subst SD_Send_Cmd.simps) simp

lemma SD_Send_Cmd_app:
  "cmd AND 0x80 \<noteq> 0 \<Longrightarrow> SD_Send_Cmd cmd arg s =
     (let (res, s1) = SD_Send_Frame CMD55 0 s in
      if res > 1 then (res, s1) else SD_Send_Frame (cmd AND 0x7F) arg s1)"
  by (subst SD_Send_Cmd.simps) (simp add: SD_Send_Cmd_plain CMD55_def)

lemma SD_Send_Cmd_tmr: "length (tmr (snd (SD_Send_Cmd cmd arg s))) \<le> length (tmr s)"
proof (cases "cmd AND 0x80 = 0")
  case True
  then show ?thesis by (simp add: SD_Send_Cmd_plain SD_Send_Frame_tmr)
next
  case False
  obtain r s1 where f: "SD_Send_Frame CMD55 0 s = (r, s1)" by force
  have 1: "length (tmr s1) \<le> length (tmr s)" using SD_Send_Frame_tmr [of CMD55 0 s] f by simp
  have 2: "length (tmr (snd (SD_Send_Frame (cmd AND 0x7F) arg s1))) \<le> length (tmr s1)"
    by (rule SD_Send_Frame_tmr)
  show ?thesis using False 1 2 by (simp add: SD_Send_Cmd_app f)
qed

text \<open>
  The end of \<open>__SD_Write_Block\<close>: wait until the card has finished programming, with a
  timeout of \<open>SD_IO_WRITE_TIMEOUT_WAIT\<close> ms.
\<close>

definition SD_Write_Wait :: "spi \<Rightarrow> SDRESULTS \<times> spi" where
  "SD_Write_Wait s =
     (let s = SPI_Timer_On SD_IO_WRITE_TIMEOUT_WAIT s;
          (line, s) = poll_while (\<lambda>line. line = 0) s;
          s = SPI_Timer_Off s
      in (if line = 0 then SD_BUSY else SD_OK, s))"

text \<open>
  \<open>__SD_Write_Block\<close>. The data pointer \<open>dat\<close> is modelled by the buffer behind it,
  which the caller provides with \<open>SD_BLK_SIZE\<close> bytes: \<open>dat ! idx\<close> is the byte
  \<open>*((uint8_t*)dat + idx)\<close>.
\<close>

definition SD_Write_Block :: "SD_DEV \<Rightarrow> byte list \<Rightarrow> byte \<Rightarrow> spi \<Rightarrow> SDRESULTS \<times> spi" where
  "SD_Write_Block dev dat token s =
     (let s = snd (SPI_RW token s) in
      if token \<noteq> 0xFD then
        (let s = fold (\<lambda>idx s. snd (SPI_RW (dat ! idx) s)) [0..<SD_BLK_SIZE] s;
             s = snd (SPI_RW 0xFF s);
             s = snd (SPI_RW 0xFF s);
             (r, s) = SPI_RW 0xFF s
         in if r AND 0x1F \<noteq> 0x05 then (SD_REJECT, s) else SD_Write_Wait s)
      else SD_Write_Wait s)"

text \<open>
  \<open>while (SPI_RW(0xFF) == 0xFF);\<close> in \<open>__SD_Sectors\<close> has no timeout: on a line that
  stays high it never returns, which is the value \<open>None\<close>.
\<close>

partial_function (option) wait_csd :: "spi \<Rightarrow> spi option" where
  "wait_csd s =
     (let (b, s1) = SPI_RW 0xFF s in
      if b = 0xFF then wait_csd s1 else Some s1)"

text \<open>\<open>for (idx=0; idx!=n; idx++) buf[idx] = SPI_RW(0xFF);\<close>\<close>

fun read_bytes :: "nat \<Rightarrow> spi \<Rightarrow> byte list \<times> spi" where
  "read_bytes 0 s = ([], s)"
| "read_bytes (Suc n) s =
     (let (b, s1) = SPI_RW 0xFF s;
          (bs, s2) = read_bytes n s1
      in (b # bs, s2))"

text \<open>
  The decoding of the CSD register in \<open>__SD_Sectors\<close>, for the card type of the device:
  the fields \<open>(C_SIZE, C_SIZE_MULT, READ_BL_LEN)\<close>, held in a \<open>uint16_t\<close> and two
  \<open>uint8_t\<close>, all initialised to 0.
\<close>

definition SD_Sectors_fields :: "byte \<Rightarrow> byte list \<Rightarrow> 16 word \<times> 8 word \<times> 8 word" where
  "SD_Sectors_fields ct csd =
     (if ct AND SDCT_SD1 \<noteq> 0 then
        (let READ_BL_LEN = csd ! 5 AND 0x0F;
             C_SIZE = ucast (csd ! 6 AND 0x03);
             C_SIZE = push_bit 8 C_SIZE;
             C_SIZE = C_SIZE OR ucast (csd ! 7);
             C_SIZE = push_bit 2 C_SIZE;
             C_SIZE = C_SIZE OR ucast (drop_bit 6 (csd ! 8) AND 0x03);
             C_SIZE_MULT = csd ! 9 AND 0x03;
             C_SIZE_MULT = push_bit 1 C_SIZE_MULT;
             C_SIZE_MULT = C_SIZE_MULT OR (drop_bit 7 (csd ! 10) AND 0x01)
         in (C_SIZE, C_SIZE_MULT, READ_BL_LEN))
      else if ct AND SDCT_SD2 \<noteq> 0 then
        (let C_SIZE = ucast (csd ! 7 AND 0x3F);
             C_SIZE = push_bit 8 C_SIZE;
             C_SIZE = C_SIZE OR ucast (csd ! 8 AND 0xFF);
             C_SIZE = push_bit 8 C_SIZE;
             C_SIZE = C_SIZE OR ucast (csd ! 9 AND 0xFF);
             C_SIZE_MULT = 0
         in (C_SIZE, C_SIZE_MULT, 0))
      else (0, 0, 0))"

text \<open>
  The capacity computed from the fields: \<open>ss = (C_SIZE + 1)\<close> is computed in \<open>int\<close> and
  stored in the \<open>uint32_t ss\<close>; the products and the division are in \<open>uint32_t\<close>.
\<close>

definition SD_Sectors_calc :: "byte \<Rightarrow> byte list \<Rightarrow> 32 word" where
  "SD_Sectors_calc ct csd =
     (let (C_SIZE, C_SIZE_MULT, READ_BL_LEN) = SD_Sectors_fields ct csd;
          ss = ucast C_SIZE + 1;
          ss = ss * SD_Power_Of_Two (C_SIZE_MULT + 2);
          ss = ss * SD_Power_Of_Two READ_BL_LEN;
          ss = ss div word_of_nat SD_BLK_SIZE
      in ss)"

text \<open>\<open>__SD_Sectors\<close>: the number of sectors of the card, 0 when \<open>CMD9\<close> fails.\<close>

definition SD_Sectors :: "SD_DEV \<Rightarrow> spi \<Rightarrow> (32 word \<times> spi) option" where
  "SD_Sectors dev s =
     (let (r, s) = SD_Send_Cmd CMD9 0 s in
      if r = 0 then
        (case wait_csd s of
           None \<Rightarrow> None
         | Some s \<Rightarrow>
             (let (csd, s) = read_bytes 16 s;
                  s = snd (SPI_RW 0xFF s);
                  s = snd (SPI_RW 0xFF s);
                  s = SPI_Release s
              in Some (SD_Sectors_calc (cardtype dev) csd, s)))
      else Some (0, s))"

section \<open>Public methods\<close>

text \<open>
  Modelled from the spec: \<open>TRUE\<close>, \<open>FALSE\<close> and \<open>HIGH\<close> come from headers that are not
  among the sources; the device's \<open>mount\<close> flag holds \<open>TRUE\<close> for a mounted session.
\<close>

definition TRUE :: byte where "TRUE = 1"
definition FALSE :: byte where "FALSE = 0"
definition HIGH :: byte where "HIGH = 1"

text \<open>\<open>__SD_Speed_Transfer\<close>\<close>

definition SD_Speed_Transfer :: "byte \<Rightarrow> spi \<Rightarrow> spi" where
  "SD_Speed_Transfer throttle s =
     (if throttle = HIGH then SPI_Freq_High s else SPI_Freq_Low s)"

text \<open>The loops of \<open>SD_Read\<close>, both of the shape \<open>do { ... } while (--n);\<close> on a
  \<open>uint16_t\<close> counter: the body runs before the counter is decremented and tested, so a
  counter that starts at 0 wraps around.\<close>

function skip_loop :: "16 word \<Rightarrow> spi \<Rightarrow> spi" where
  "skip_loop n s =
     (let s1 = snd (SPI_RW 0xFF s);
          n1 = n - 1
      in if n1 \<noteq> 0 then skip_loop n1 s1 else s1)"
  by pat_completeness auto
termination
  by (relation "measure (\<lambda>(n, s). unat (n - 1))")
     (auto simp: dec_measure)

declare skip_loop.simps [simp del]

text \<open>The destination pointer \<open>dat\<close> is modelled by the list of the bytes stored through
  it so far: \<open>*(uint8_t*)dat = SPI_RW(0xFF); dat++;\<close> appends one byte.\<close>

function store_loop :: "byte list \<Rightarrow> 16 word \<Rightarrow> spi \<Rightarrow> byte list \<times> spi" where
  "store_loop dat cnt s =
     (let (b, s1) = SPI_RW 0xFF s;
          dat1 = dat @ [b];
          cnt1 = cnt - 1
      in if cnt1 \<noteq> 0 then store_loop dat1 cnt1 s1 else (dat1, s1))"
  by pat_completeness auto
termination
  by (relation "measure (\<lambda>(dat, cnt, s). unat (cnt - 1))")
     (auto simp: dec_measure)

declare store_loop.simps [simp del]

text \<open>The wait for the data packet in \<open>SD_Read\<close> (timeout of 100 ms).\<close>

definition SD_Read_Wait :: "spi \<Rightarrow> byte \<times> spi" where
  "SD_Read_Wait s =
     (let s = SPI_Timer_On 100 s;
          (tkn, s) = poll_while (\<lambda>tkn. tkn = 0xFF) s;
          s = SPI_Timer_Off s
      in (tkn, s))"

text \<open>\<open>SD_Read\<close>: the result, the bytes stored in the destination and the transport.\<close>

definition SD_Read ::
  "SD_DEV \<Rightarrow> 32 word \<Rightarrow> 16 word \<Rightarrow> 16 word \<Rightarrow> spi \<Rightarrow> SDRESULTS \<times> byte list \<times> spi" where
  "SD_Read dev sector ofs cnt s =
     (if sector > ucast (last_sector dev) \<or> cnt = 0 then (SD_PARERR, [], s)
      else
        (let (r, s) = SD_Send_Cmd CMD17 (sector * word_of_nat SD_BLK_SIZE) s in
         if r = 0 then
           (let (tkn, s) = SD_Read_Wait s in
            if tkn = 0xFE then
              (let remaining = word_of_nat SD_BLK_SIZE + 2 - ofs - cnt;
                   s = (if ofs \<noteq> 0 then skip_loop ofs s else s);
                   (dat, s) = store_loop [] cnt s;
                   s = skip_loop remaining s
               in (SD_OK, dat, SPI_Release s))
            else (SD_ERROR, [], SPI_Release s))
         else (SD_ERROR, [], SPI_Release s)))"

text \<open>\<open>SD_Write\<close>\<close>

definition SD_Write :: "SD_DEV \<Rightarrow> byte list \<Rightarrow> 32 word \<Rightarrow> spi \<Rightarrow> SDRESULTS \<times> spi" where
  "SD_Write dev dat sector s =
     (if sector > ucast (last_sector dev) then (SD_PARERR, s)
      else
        (let (r, s) = SD_Send_Cmd CMD24 (sector * word_of_nat SD_BLK_SIZE) s in
         if r = 0 then SD_Write_Block dev dat 0xFE s
         else (SD_ERROR, s)))"


text \<open>\<open>while(SPI_Timer_Status()==TRUE);\<close>\<close>

function wait_timer :: "spi \<Rightarrow> spi" where
  "wait_timer s = (let (t, s1) = SPI_Timer_Status s in if t then wait_timer s1 else s1)"
  by pat_completeness auto
termination
  by (relation "measure (\<lambda>s. length (tmr s))")
     (auto simp: SPI_Timer_Status_def split: list.splits)

declare wait_timer.simps [simp del]

text \<open>\<open>while ((__SD_Send_Cmd(CMD0, 0) != 1)&&(SPI_Timer_Status()==TRUE));\<close>\<close>

function wait_idle :: "spi \<Rightarrow> spi" where
  "wait_idle s =
     (let (r, s1) = SD_Send_Cmd CMD0 0 s in
      if r \<noteq> 1 then
        (let (t, s2) = SPI_Timer_Status s1 in if t then wait_idle s2 else s2)
      else s1)"
  by pat_completeness auto
termination
proof (relation "measure (\<lambda>s. length (tmr s))")
  show "wf (measure (\<lambda>s. length (tmr s)))" by simp
next
  fix s :: spi and x r s1 xa t s2
  assume x: "x = SD_Send_Cmd CMD0 0 s" and r: "(r, s1) = x"
    and xa: "xa = SPI_Timer_Status s1" and t: "(t, s2) = xa" and "t"
  have "length (tmr s1) \<le> length (tmr s)"
    using SD_Send_Cmd_tmr [of CMD0 0 s] x r by (metis snd_conv)
  moreover have "length (tmr s2) < length (tmr s1)"
    using xa t \<open>t\<close> by (auto simp: SPI_Timer_Status_def split: list.splits)
  ultimately show "(s2, s) \<in> measure (\<lambda>s. length (tmr s))" by simp
qed

declare wait_idle.simps [simp del]

text \<open>\<open>while ((SPI_Timer_Status()==TRUE)&&(__SD_Send_Cmd(cmd, arg)));\<close>\<close>

function wait_ready :: "byte \<Rightarrow> 32 word \<Rightarrow> spi \<Rightarrow> spi" where
  "wait_ready cmd arg s =
     (let (t, s1) = SPI_Timer_Status s in
      if t then
        (let (r, s2) = SD_Send_Cmd cmd arg s1 in
         if r \<noteq> 0 then wait_ready cmd arg s2 else s2)
      else s1)"
  by pat_completeness auto
termination
proof (relation "measure (\<lambda>(cmd, arg, s). length (tmr s))")
  show "wf (measure (\<lambda>(cmd, arg, s). length (tmr s)))" by simp
next
  fix cmd :: byte and arg :: "32 word" and s :: spi and x t s1 xa r s2
  assume x: "x = SPI_Timer_Status s" and t: "(t, s1) = x" and "t"
    and xa: "xa = SD_Send_Cmd cmd arg s1" and r: "(r, s2) = xa"
  have "length (tmr s2) \<le> length (tmr s1)"
    using SD_Send_Cmd_tmr [of cmd arg s1] xa r by (metis snd_conv)
  moreover have "length (tmr s1) < length (tmr s)"
    using x t \<open>t\<close> by (auto simp: SPI_Timer_Status_def split: list.splits)
  ultimately show "((cmd, arg, s2), (cmd, arg, s)) \<in> measure (\<lambda>(cmd, arg, s). length (tmr s))"
    by simp
qed

declare wait_ready.simps [simp del]

text \<open>
  One pass of the loop of \<open>SD_Init\<close>: the card type detected (0 when none), the device
  and the transport.
\<close>

definition SD_Init_try :: "SD_DEV \<Rightarrow> spi \<Rightarrow> byte \<times> SD_DEV \<times> spi" where
  "SD_Init_try dev s =
     (let s = SPI_Init s;
          s = SPI_CS_High s;
          s = SPI_Freq_Low s;
          s = fold (\<lambda>idx s. snd (SPI_RW 0xFF s)) [0..<10] s;
          s = SPI_Timer_On 500 s;
          s = wait_timer s;
          s = SPI_Timer_Off s;
          dev = dev\<lparr>mount := FALSE\<rparr>;
          s = SPI_Timer_On 500 s;
          s = wait_idle s;
          s = SPI_Timer_Off s;
          (r, s) = SD_Send_Cmd CMD0 0 s
      in
      if r = 1 then
        (let (r, s) = SD_Send_Cmd CMD8 0x1AA s in
         if r = 1 then
           (let (ocr, s) = read_bytes 4 s in
            if ocr ! 2 = 0x01 \<and> ocr ! 3 = 0xAA then
              (let s = SPI_Timer_On 1000 s;
                   s = wait_ready ACMD41 (push_bit 30 1) s;
                   s = SPI_Timer_Off s;
                   (t, s) = SPI_Timer_Status s
               in
               if t then
                 (let (r, s) = SD_Send_Cmd CMD58 0 s in
                  if r = 0 then
                    (let (ocr, s) = read_bytes 4 s in
                     (if ocr ! 0 AND 0x40 \<noteq> 0 then SDCT_SD2 OR SDCT_BLOCK else SDCT_SD2,
                      dev, s))
                  else (0, dev, s))
               else (0, dev, s))
            else (0, dev, s))
         else
           (let (r, s) = SD_Send_Cmd ACMD41 0 s;
                (ct, cmd) = (if r \<le> 1 then (SDCT_SD1, ACMD41) else (SDCT_MMC, CMD1));
                s = SPI_Timer_On 250 s;
                s = wait_ready cmd 0 s;
                s = SPI_Timer_Off s;
                (t, s) = SPI_Timer_Status s;
                ct = (if \<not> t then 0 else ct);
                (r, s) = SD_Send_Cmd CMD59 0 s;
                ct = (if r \<noteq> 0 then 0 else ct);
                (r, s) = SD_Send_Cmd CMD16 512 s;
                ct = (if r \<noteq> 0 then 0 else ct)
            in (ct, dev, s)))
      else (0, dev, s))"

text \<open>\<open>for(init_trys=0; ((init_trys!=SD_INIT_TRYS)&&(!ct)); init_trys++)\<close>\<close>

function SD_Init_loop :: "8 word \<Rightarrow> byte \<Rightarrow> SD_DEV \<Rightarrow> spi \<Rightarrow> byte \<times> SD_DEV \<times> spi" where
  "SD_Init_loop init_trys ct dev s =
     (if init_trys \<noteq> SD_INIT_TRYS \<and> ct = 0 then
        (let (ct, dev, s) = SD_Init_try dev s
         in SD_Init_loop (init_trys + 1) ct dev s)
      else (ct, dev, s))"
  by pat_completeness auto
termination
proof (relation "measure (\<lambda>(init_trys, ct, dev, s). unat (SD_INIT_TRYS - init_trys))")
  show "wf (measure (\<lambda>(init_trys, ct, dev, s). unat (SD_INIT_TRYS - init_trys)))" by simp
next
  fix init_trys ct :: byte and dev :: SD_DEV and s :: spi and x ct1 y dev1 s1
  assume "init_trys \<noteq> SD_INIT_TRYS \<and> ct = 0"
  then have "SD_INIT_TRYS - init_trys \<noteq> 0" by auto
  from unat_pred_less [OF this]
  have "unat (SD_INIT_TRYS - (init_trys + 1)) < unat (SD_INIT_TRYS - init_trys)"
    by (simp add: diff_diff_eq add.commute)
  then show "((init_trys + 1, ct1, dev1, s1), (init_trys, ct, dev, s))
     \<in> measure (\<lambda>(init_trys, ct, dev, s). unat (SD_INIT_TRYS - init_trys))"
    by simp
qed

declare SD_Init_loop.simps [simp del]

text \<open>
  \<open>SD_Init\<close>: the result, the device and the transport; \<open>None\<close> when the wait in
  \<open>__SD_Sectors\<close> never ends.
\<close>

definition SD_Init :: "SD_DEV \<Rightarrow> spi \<Rightarrow> (SDRESULTS \<times> SD_DEV \<times> spi) option" where
  "SD_Init dev s =
     (let (ct, dev, s) = SD_Init_loop 0 0 dev s in
      if ct \<noteq> 0 then
        (let dev = dev\<lparr>cardtype := ct\<rparr>;
             dev = dev\<lparr>mount := TRUE\<rparr>
         in case SD_Sectors dev s of
              None \<Rightarrow> None
            | Some (n, s) \<Rightarrow>
                (let dev = dev\<lparr>last_sector := ucast (n - 1)\<rparr>;
                     s = SD_Speed_Transfer HIGH s;
                     s = SPI_Release s
                 in Some (SD_OK, dev, s)))
      else Some (SD_NOINIT, dev, SPI_Release s))"

text \<open>\<open>SD_Status\<close>: \<open>return(__SD_Send_Cmd(CMD0, 0) ? SD_OK : SD_NORESPONSE);\<close>\<close>

definition SD_Status :: "spi \<Rightarrow> SDRESULTS \<times> spi" where
  "SD_Status s =
     (let (res, s1) = SD_Send_Cmd CMD0 0 s in
      (if res \<noteq> 0 then SD_OK else SD_NORESPONSE, s1))"


section \<open>The capacity in the words of the specification\<close>

text \<open>The capacity as the specification words it, on natural numbers: the field
  \<open>C_SIZE\<close> of an SD version 2 card is the 22-bit field of the bytes 7 to 9 of the CSD
  (the low 6 bits of byte 7, byte 8, byte 9), and the number of sectors is
  \<open>(C_SIZE + 1) * 2^(C_SIZE_MULT + 2) * 2^READ_BL_LEN / 512\<close>.\<close>

definition spec_C_SIZE_SD2 :: "byte list \<Rightarrow> nat" where
  "spec_C_SIZE_SD2 csd = (unat (csd ! 7) mod 64) * 65536 + unat (csd ! 8) * 256 + unat (csd ! 9)"

definition spec_sector_count :: "nat \<Rightarrow> nat \<Rightarrow> nat \<Rightarrow> nat" where
  "spec_sector_count C_SIZE C_SIZE_MULT READ_BL_LEN =
     (C_SIZE + 1) * 2 ^ (C_SIZE_MULT + 2) * 2 ^ READ_BL_LEN div 512"

section \<open>Properties of the command dispatch\<close>

text \<open>The four argument bytes of a command, most significant first, make up the argument.\<close>

lemma arg_byte:
  "unat (ucast (drop_bit k (arg :: 32 word)) :: 8 word) = unat arg div 2 ^ k mod 2 ^ 8"
proof -
  have "unat (ucast (drop_bit k arg) :: 8 word) = take_bit 8 (drop_bit k (unat arg))"
    by (simp only: unsigned_ucast_eq unat_drop_bit_eq) simp
  then show ?thesis by (simp only: drop_bit_eq_div take_bit_eq_mod)
qed

lemma arg_byte0:
  "unat (ucast (arg :: 32 word) :: 8 word) = unat arg mod 2 ^ 8"
  using arg_byte [of 0 arg] by simp

lemma be_split:
  fixes a :: nat
  assumes "a < 2 ^ 32"
  shows "a = 2 ^ 24 * (a div 2 ^ 24 mod 2 ^ 8) + (2 ^ 16 * (a div 2 ^ 16 mod 2 ^ 8)
             + (2 ^ 8 * (a div 2 ^ 8 mod 2 ^ 8) + a mod 2 ^ 8))"
proof -
  have 0: "a mod (2 ^ 24 * 2 ^ 8) = a" using assms by simp
  have 1: "a mod (2 ^ 24 * 2 ^ 8) = 2 ^ 24 * (a div 2 ^ 24 mod 2 ^ 8) + a mod 2 ^ 24"
    by (rule mod_mult2_eq)
  have 2: "a mod (2 ^ 16 * 2 ^ 8) = 2 ^ 16 * (a div 2 ^ 16 mod 2 ^ 8) + a mod 2 ^ 16"
    by (rule mod_mult2_eq)
  have 3: "a mod (2 ^ 8 * 2 ^ 8) = 2 ^ 8 * (a div 2 ^ 8 mod 2 ^ 8) + a mod 2 ^ 8"
    by (rule mod_mult2_eq)
  have e2: "a mod 2 ^ 24 = 2 ^ 16 * (a div 2 ^ 16 mod 2 ^ 8) + a mod 2 ^ 16"
    using 2 by simp 
  have e3: "a mod 2 ^ 16 = 2 ^ 8 * (a div 2 ^ 8 mod 2 ^ 8) + a mod 2 ^ 8"
    using 3 by simp
  have "a = 2 ^ 24 * (a div 2 ^ 24 mod 2 ^ 8) + a mod 2 ^ 24"
    using 0 1 by simp
  also have "\<dots> = 2 ^ 24 * (a div 2 ^ 24 mod 2 ^ 8) + (2 ^ 16 * (a div 2 ^ 16 mod 2 ^ 8) + (2 ^ 8 * (a div 2 ^ 8 mod 2 ^ 8) + a mod 2 ^ 8))"
    by (simp only: e2 e3)
  finally show ?thesis .
qed

lemma arg_big_endian:
  "unat (arg :: 32 word) =
     2 ^ 24 * unat (ucast (drop_bit 24 arg) :: 8 word)
     + (2 ^ 16 * unat (ucast (drop_bit 16 arg) :: 8 word)
     + (2 ^ 8 * unat (ucast (drop_bit 8 arg) :: 8 word)
     + unat (ucast arg :: 8 word)))"
proof -
  have "unat arg < 2 ^ 32" using unsigned_less [of arg] by simp
  from be_split [OF this] show ?thesis
    by (simp only: arg_byte) (simp only: arg_byte0)
qed

text \<open>A command sent when no card answers: the line stays high and the timer has expired.\<close>

lemma SD_Send_Frame_dead:
  "SD_Send_Frame cmd arg \<lparr>miso = [], tmr = [], wire = w\<rparr> =
     (0xFF, \<lparr>miso = [], tmr = [],
       wire = w @ [CS_High, Xfer 0xFF, CS_Low, Xfer 0xFF,
          Xfer cmd, Xfer (ucast (drop_bit 24 arg)), Xfer (ucast (drop_bit 16 arg)),
          Xfer (ucast (drop_bit 8 arg)), Xfer (ucast arg),
          Xfer (if cmd = CMD8 then 0x87 else if cmd = CMD0 then 0x95 else 0x01),
          Timer_On 5, Xfer 0xFF, Timer_Off]\<rparr>)"
  using SD_Send_Frame_run [of 0 "\<lparr>miso = [], tmr = [], wire = w\<rparr>" cmd arg]
  by (simp add: rx_def tick_def)

text \<open>Clearing bit 7 of a command byte that has it clear changes nothing.\<close>

lemma byte_minus_one: "(255 :: 8 word) = - 1"
  by simp

lemma byte_all_ones: "(cmd :: 8 word) AND 255 = cmd"
  unfolding byte_minus_one by simp

lemma CMD55_plain: "CMD55 AND 0x80 = 0"
  by (simp add: CMD55_def)

lemma low7: "(cmd :: 8 word) AND 0x80 = 0 \<Longrightarrow> cmd AND 0x7F = cmd"
proof -
  assume a: "cmd AND 0x80 = 0"
  have "cmd = cmd AND (0x7F OR 0x80)" by (simp add: byte_all_ones)
  also have "\<dots> = (cmd AND 0x7F) OR (cmd AND 0x80)" by (rule bit.conj_disj_distrib)
  finally show ?thesis using a by simp
qed

lemma SD_Send_Frame_wire:
  "\<exists>n. wire (snd (SD_Send_Frame cmd arg s)) =
     wire s @ [CS_High, Xfer 0xFF, CS_Low, Xfer 0xFF]
       @ map Xfer [cmd, ucast (drop_bit 24 arg), ucast (drop_bit 16 arg),
                   ucast (drop_bit 8 arg), ucast arg,
                   if cmd = CMD0 then 0x95 else if cmd = CMD8 then 0x87 else 0x01]
       @ [Timer_On 5] @ replicate (Suc n) (Xfer 0xFF) @ [Timer_Off]"
proof -
  obtain i k where "SD_Send_Frame cmd arg s =
     (rx s (8 + i),
      \<lparr>miso = drop (9 + i) (miso s), tmr = drop k (tmr s),
       wire = wire s @
         [CS_High, Xfer 0xFF, CS_Low, Xfer 0xFF,
          Xfer cmd, Xfer (ucast (drop_bit 24 arg)), Xfer (ucast (drop_bit 16 arg)),
          Xfer (ucast (drop_bit 8 arg)), Xfer (ucast arg),
          Xfer (if cmd = CMD8 then 0x87 else if cmd = CMD0 then 0x95 else 0x01),
          Timer_On 5]
         @ replicate (Suc i) (Xfer 0xFF) @ [Timer_Off]\<rparr>)"
    using SD_Send_Frame_ex [of cmd arg s] by blast
  then have "wire (snd (SD_Send_Frame cmd arg s)) =
     wire s @ [CS_High, Xfer 0xFF, CS_Low, Xfer 0xFF]
       @ map Xfer [cmd, ucast (drop_bit 24 arg), ucast (drop_bit 16 arg),
                   ucast (drop_bit 8 arg), ucast arg,
                   if cmd = CMD0 then 0x95 else if cmd = CMD8 then 0x87 else 0x01]
       @ [Timer_On 5] @ replicate (Suc i) (Xfer 0xFF) @ [Timer_Off]"
    by (simp add: cmd_defs)
  then show ?thesis by blast
qed

text \<open>
  C8: every command that \<open>__SD_Send_Cmd\<close> sends for the command byte \<open>cmd\<close> and the
  argument \<open>arg\<close> (directly, or after the \<open>CMD55\<close> prefix of an application command was
  answered with at most 1) goes out, after the two bytes that select the card, as
  exactly six bytes: the command byte with bit 7 cleared, the four bytes of the argument
  with the most significant first, and a last byte that is \<open>0x95\<close> for \<open>CMD0\<close>, \<open>0x87\<close>
  for \<open>CMD8\<close> and \<open>0x01\<close> for every other command. Then only the response is polled.
\<close>

theorem SD_Send_Cmd_frame:
  assumes "cmd AND 0x80 = 0 \<or> fst (SD_Send_Cmd CMD55 0 s) \<le> 1"
  shows "\<exists>n b3 b2 b1 b0.
     unat arg = 2 ^ 24 * unat b3 + (2 ^ 16 * unat b2 + (2 ^ 8 * unat b1 + unat b0))
     \<and> wire (snd (SD_Send_Cmd cmd arg s)) =
         wire (if cmd AND 0x80 = 0 then s else snd (SD_Send_Cmd CMD55 0 s))
         @ [CS_High, Xfer 0xFF, CS_Low, Xfer 0xFF]
         @ map Xfer [cmd AND 0x7F, b3, b2, b1, b0,
                     if cmd AND 0x7F = CMD0 then 0x95
                     else if cmd AND 0x7F = CMD8 then 0x87 else 0x01]
         @ [Timer_On 5] @ replicate (Suc n) (Xfer 0xFF) @ [Timer_Off]"
proof -
  let ?s = "if cmd AND 0x80 = 0 then s else snd (SD_Send_Cmd CMD55 0 s)"
  have run: "SD_Send_Cmd cmd arg s = SD_Send_Frame (cmd AND 0x7F) arg ?s"
  proof (cases "cmd AND 0x80 = 0")
    case True
    then show ?thesis by (simp add: SD_Send_Cmd_plain low7)
  next
    case False
    with assms have "\<not> 1 < fst (SD_Send_Frame CMD55 0 s)"
      by (simp add: SD_Send_Cmd_plain CMD55_def not_less)
    with False show ?thesis
      by (simp add: SD_Send_Cmd_app SD_Send_Cmd_plain CMD55_def split_beta)
  qed
  obtain n where "wire (snd (SD_Send_Frame (cmd AND 0x7F) arg ?s)) =
     wire ?s @ [CS_High, Xfer 0xFF, CS_Low, Xfer 0xFF]
       @ map Xfer [cmd AND 0x7F, ucast (drop_bit 24 arg), ucast (drop_bit 16 arg),
                   ucast (drop_bit 8 arg), ucast arg,
                   if cmd AND 0x7F = CMD0 then 0x95
                   else if cmd AND 0x7F = CMD8 then 0x87 else 0x01]
       @ [Timer_On 5] @ replicate (Suc n) (Xfer 0xFF) @ [Timer_Off]"
    using SD_Send_Frame_wire [of "cmd AND 0x7F" arg ?s] by blast
  with run arg_big_endian [of arg] show ?thesis by metis
qed

theorem SD_Send_Cmd_frame_witness:
  "\<exists>n b3 b2 b1 b0.
     unat (0x1AA :: 32 word) = 2 ^ 24 * unat b3 + (2 ^ 16 * unat b2 + (2 ^ 8 * unat b1 + unat b0))
     \<and> wire (snd (SD_Send_Cmd CMD8 0x1AA \<lparr>miso = [], tmr = [], wire = []\<rparr>)) =
         [CS_High, Xfer 0xFF, CS_Low, Xfer 0xFF]
         @ map Xfer [0x48, b3, b2, b1, b0, 0x87]
         @ [Timer_On 5] @ replicate (Suc n) (Xfer 0xFF) @ [Timer_Off]"
  using SD_Send_Cmd_frame [where cmd = CMD8 and arg = "0x1AA"
      and s = "\<lparr>miso = [], tmr = [], wire = []\<rparr>"]
  by (simp add: cmd_defs)

text \<open>
  C9: for every application command (bit 7 of the command byte set) \<open>__SD_Send_Cmd\<close>
  first sends \<open>CMD55\<close> with argument 0; when the response to it is greater than 1, that
  response is returned and nothing else is sent: the transport is as \<open>CMD55\<close> left it.
\<close>

theorem SD_Send_Cmd_app_escape:
  assumes "cmd AND 0x80 \<noteq> 0"
  shows "\<exists>n rest.
     wire (snd (SD_Send_Cmd cmd arg s)) =
       wire s @ [CS_High, Xfer 0xFF, CS_Low, Xfer 0xFF]
       @ map Xfer [CMD55, 0, 0, 0, 0, 0x01]
       @ [Timer_On 5] @ replicate (Suc n) (Xfer 0xFF) @ [Timer_Off] @ rest
     \<and> (1 < fst (SD_Send_Cmd CMD55 0 s) \<longrightarrow>
          rest = [] \<and> SD_Send_Cmd cmd arg s = SD_Send_Cmd CMD55 0 s)"
proof -
  obtain r s1 where f: "SD_Send_Frame CMD55 0 s = (r, s1)" by force
  obtain n where w1: "wire s1 =
       wire s @ [CS_High, Xfer 0xFF, CS_Low, Xfer 0xFF]
       @ map Xfer [CMD55, 0, 0, 0, 0, 0x01]
       @ [Timer_On 5] @ replicate (Suc n) (Xfer 0xFF) @ [Timer_Off]"
    using SD_Send_Frame_wire [of CMD55 0 s] f by (auto simp: cmd_defs)
  have e: "SD_Send_Cmd CMD55 0 s = (r, s1)"
    using SD_Send_Cmd_plain [OF CMD55_plain] f by simp
  show ?thesis
  proof (cases "1 < r")
    case True
    then have "SD_Send_Cmd cmd arg s = (r, s1)" using assms by (simp add: SD_Send_Cmd_app f)
    with True w1 e show ?thesis by auto
  next
    case False
    then have c: "SD_Send_Cmd cmd arg s = SD_Send_Frame (cmd AND 0x7F) arg s1"
      using assms by (simp add: SD_Send_Cmd_app f)
    obtain m where "wire (snd (SD_Send_Frame (cmd AND 0x7F) arg s1)) = wire s1 @ m"
      using SD_Send_Frame_wire [of "cmd AND 0x7F" arg s1] by blast
    with c w1 False e show ?thesis by auto
  qed
qed

theorem SD_Send_Cmd_app_escape_witness:
  "ACMD41 AND 0x80 \<noteq> 0
   \<and> (\<exists>n rest.
     wire (snd (SD_Send_Cmd ACMD41 0 \<lparr>miso = [], tmr = [], wire = []\<rparr>)) =
       [CS_High, Xfer 0xFF, CS_Low, Xfer 0xFF]
       @ map Xfer [CMD55, 0, 0, 0, 0, 0x01]
       @ [Timer_On 5] @ replicate (Suc n) (Xfer 0xFF) @ [Timer_Off] @ rest
     \<and> (1 < fst (SD_Send_Cmd CMD55 0 \<lparr>miso = [], tmr = [], wire = []\<rparr>) \<longrightarrow>
          rest = [] \<and> SD_Send_Cmd ACMD41 0 \<lparr>miso = [], tmr = [], wire = []\<rparr>
                     = SD_Send_Cmd CMD55 0 \<lparr>miso = [], tmr = [], wire = []\<rparr>))
   \<and> 1 < fst (SD_Send_Cmd CMD55 0 \<lparr>miso = [], tmr = [], wire = []\<rparr>)"
proof -
  have a: "ACMD41 AND 0x80 \<noteq> 0" by (simp add: ACMD41_def)
  have b: "1 < fst (SD_Send_Cmd CMD55 0 \<lparr>miso = [], tmr = [], wire = []\<rparr>)"
    by (simp add: SD_Send_Cmd_plain SD_Send_Frame_dead CMD55_def)
  show ?thesis
    using a b SD_Send_Cmd_app_escape [OF a, of 0 "\<lparr>miso = [], tmr = [], wire = []\<rparr>"]
    by (simp only: spi.select_convs append_Nil) blast
qed

section \<open>Properties of the status probe\<close>

text \<open>What \<open>SD_Status\<close> answers, for every response to \<open>CMD0\<close>.\<close>

lemma SD_Status_result:
  "fst (SD_Status s) = (if fst (SD_Send_Cmd CMD0 0 s) = 0 then SD_NORESPONSE else SD_OK)"
  by (simp add: SD_Status_def split_beta)

text \<open>
  C2 (the status probe returns Ok exactly when the response of the idle-reset command is
  the idle value, and NoResponse for every other response byte, the \<open>0xFF\<close> of a timeout
  included): \<open>SD_Status\<close> tests the response for being non-zero, not for being 1. With no
  card on the bus the line stays high, \<open>__SD_Send_Cmd\<close> gives up after its timeout and
  returns \<open>0xFF\<close>, and \<open>SD_Status\<close> answers \<open>SD_OK\<close>, where the specification and the
  meaning of \<open>SD_NORESPONSE\<close> ask for NoResponse.
\<close>

theorem SD_Status_no_card:
  "fst (SD_Send_Cmd CMD0 0 \<lparr>miso = [], tmr = [], wire = []\<rparr>) = 0xFF
   \<and> fst (SD_Status \<lparr>miso = [], tmr = [], wire = []\<rparr>) = SD_OK"
  by (simp add: SD_Status_def SD_Send_Cmd_plain SD_Send_Frame_dead CMD0_def)

section \<open>Properties of the parameter checks\<close>

text \<open>
  The bound held in the 16-bit \<open>last_sector\<close> never exceeds the last sector of a card
  with \<open>n\<close> sectors, so every sector from \<open>n\<close> on is beyond it.
\<close>

lemma last_sector_bound:
  fixes n sector :: "32 word"
  assumes "n \<noteq> 0" "n \<le> sector"
  shows "sector > ucast (ucast (n - 1) :: 16 word)"
proof -
  have "unat (ucast (ucast (n - 1) :: 16 word) :: 32 word)
          = take_bit 16 (unat (n - 1))"
    by (simp add: unsigned_ucast_eq unsigned_take_bit_eq)
  also have "\<dots> \<le> unat (n - 1)"
    by (rule take_bit_nat_less_eq_self)
  also have "\<dots> < unat n" using assms(1) by (rule unat_pred_less)
  also have "\<dots> \<le> unat sector" using assms(2) by (simp add: word_le_nat_alt)
  finally show ?thesis by (simp add: word_less_nat_alt)
qed

text \<open>
  C1 as stated (a session that is not mounted makes read and write return a parameter
  error without touching the transport) fails: neither function looks at \<open>mount\<close>. On a
  device that is not mounted, a write and a read of sector 0 both send their command.
\<close>

theorem unmounted_io_counterexample:
  "mount \<lparr>mount = FALSE, cardtype = 0, last_sector = 0\<rparr> \<noteq> TRUE
   \<and> SD_Write \<lparr>mount = FALSE, cardtype = 0, last_sector = 0\<rparr> (replicate 512 0) 0
        \<lparr>miso = [], tmr = [], wire = []\<rparr>
     = (SD_ERROR, \<lparr>miso = [], tmr = [],
         wire = [CS_High, Xfer 0xFF, CS_Low, Xfer 0xFF, Xfer 0x58, Xfer 0, Xfer 0, Xfer 0,
                 Xfer 0, Xfer 0x01, Timer_On 5, Xfer 0xFF, Timer_Off]\<rparr>)
   \<and> SD_Read \<lparr>mount = FALSE, cardtype = 0, last_sector = 0\<rparr> 0 0 1
        \<lparr>miso = [], tmr = [], wire = []\<rparr>
     = (SD_ERROR, [], \<lparr>miso = [], tmr = [],
         wire = [CS_High, Xfer 0xFF, CS_Low, Xfer 0xFF, Xfer 0x51, Xfer 0, Xfer 0, Xfer 0,
                 Xfer 0, Xfer 0x01, Timer_On 5, Xfer 0xFF, Timer_Off, Release]\<rparr>)"
  by (simp add: SD_Write_def SD_Read_def SD_Send_Cmd_plain SD_Send_Frame_dead cmd_defs
      TRUE_def FALSE_def spi_eqs)

text \<open>
  C1, amended: whenever the requested sector exceeds the \<open>last_sector\<close> of the device
  (for a read, also when the byte count is 0), \<open>SD_Read\<close> and \<open>SD_Write\<close> return
  \<open>SD_PARERR\<close>, store nothing and leave the transport as it was; \<open>mount\<close> plays no part.
  In particular, when \<open>last_sector\<close> was set from a sector count \<open>n \<ge> 1\<close>, every sector
  \<open>\<ge> n\<close> is refused.
\<close>

theorem SD_Read_Write_parameter_error:
  "(sector > ucast (last_sector dev) \<or> cnt = 0
      \<longrightarrow> SD_Read dev sector ofs cnt s = (SD_PARERR, [], s))
   \<and> (sector > ucast (last_sector dev)
      \<longrightarrow> SD_Write dev dat sector s = (SD_PARERR, s))
   \<and> (n \<noteq> 0 \<and> last_sector dev = ucast (n - 1) \<and> n \<le> sector
      \<longrightarrow> SD_Read dev sector ofs cnt s = (SD_PARERR, [], s)
        \<and> SD_Write dev dat sector s = (SD_PARERR, s))"
  using last_sector_bound [of n sector]
  by (auto simp: SD_Read_def SD_Write_def)

theorem SD_Read_Write_parameter_error_witness:
  "SD_Read \<lparr>mount = TRUE, cardtype = SDCT_SD1, last_sector = 3\<rparr> 4 0 512
       \<lparr>miso = [], tmr = [], wire = []\<rparr> = (SD_PARERR, [], \<lparr>miso = [], tmr = [], wire = []\<rparr>)
   \<and> SD_Read \<lparr>mount = TRUE, cardtype = SDCT_SD1, last_sector = 3\<rparr> 2 0 0
       \<lparr>miso = [], tmr = [], wire = []\<rparr> = (SD_PARERR, [], \<lparr>miso = [], tmr = [], wire = []\<rparr>)
   \<and> SD_Write \<lparr>mount = TRUE, cardtype = SDCT_SD1, last_sector = 3\<rparr> (replicate 512 0) 4
       \<lparr>miso = [], tmr = [], wire = []\<rparr> = (SD_PARERR, \<lparr>miso = [], tmr = [], wire = []\<rparr>)"
  using SD_Read_Write_parameter_error
    [where sector = 4 and dev = "\<lparr>mount = TRUE, cardtype = SDCT_SD1, last_sector = 3\<rparr>"
       and cnt = 512 and ofs = 0 and s = "\<lparr>miso = [], tmr = [], wire = []\<rparr>"
       and dat = "replicate 512 0" and n = 4]
    SD_Read_Write_parameter_error
    [where sector = 2 and dev = "\<lparr>mount = TRUE, cardtype = SDCT_SD1, last_sector = 3\<rparr>"
       and cnt = 0 and ofs = 0 and s = "\<lparr>miso = [], tmr = [], wire = []\<rparr>"
       and dat = "replicate 512 0" and n = 4]
  by simp


section \<open>Properties of the sector read\<close>

text \<open>
  A loop \<open>do { ... } while (--n);\<close> runs its body \<open>unat (n - 1) + 1\<close> times: \<open>n\<close> times
  when \<open>n\<close> is not 0.
\<close>

lemma unat_Suc_pred: "(n :: 'a::len word) \<noteq> 0 \<Longrightarrow> Suc (unat (n - 1)) = unat n"
  using unat_minus_one [of n] unat_gt_0 [of n] by simp

lemma skip_loop_run:
  "skip_loop n s =
     \<lparr>miso = drop (Suc (unat (n - 1))) (miso s), tmr = tmr s,
      wire = wire s @ replicate (Suc (unat (n - 1))) (Xfer 0xFF)\<rparr>"
proof (induction "unat (n - 1)" arbitrary: n s)
  case 0
  then have "n - 1 = 0" by (simp add: unat_eq_0)
  then show ?case by (subst skip_loop.simps) (simp add: spi_eqs)
next
  case (Suc k)
  then have nz: "n - 1 \<noteq> 0" by auto
  have k: "k = unat (n - 1 - 1)" using unat_minus_one [OF nz] Suc.hyps(2) by simp
  have "skip_loop n s = skip_loop (n - 1)
      \<lparr>miso = drop 1 (miso s), tmr = tmr s, wire = wire s @ [Xfer 0xFF]\<rparr>"
    using nz by (subst skip_loop.simps) (simp add: spi_eqs)
  also note Suc.hyps(1) [OF k]
  finally show ?case using Suc.hyps(2) [symmetric] k [symmetric]
    by (simp add: replicate_append_same)
qed

lemma store_loop_run:
  "store_loop dat cnt s =
     (dat @ map (rx s) [0..<Suc (unat (cnt - 1))],
      \<lparr>miso = drop (Suc (unat (cnt - 1))) (miso s), tmr = tmr s,
       wire = wire s @ replicate (Suc (unat (cnt - 1))) (Xfer 0xFF)\<rparr>)"
proof (induction "unat (cnt - 1)" arbitrary: cnt dat s)
  case 0
  then have "cnt - 1 = 0" by (simp add: unat_eq_0)
  then show ?case by (subst store_loop.simps) (simp add: spi_eqs)
next
  case (Suc k)
  then have nz: "cnt - 1 \<noteq> 0" by auto
  have k: "k = unat (cnt - 1 - 1)" using unat_minus_one [OF nz] Suc.hyps(2) by simp
  let ?s1 = "\<lparr>miso = drop 1 (miso s), tmr = tmr s, wire = wire s @ [Xfer 0xFF]\<rparr>"
  have "store_loop dat cnt s = store_loop (dat @ [rx s 0]) (cnt - 1) ?s1"
    using nz by (subst store_loop.simps) (simp add: spi_eqs)
  also note Suc.hyps(1) [OF k]
  finally show ?case using Suc.hyps(2) [symmetric] k [symmetric]
    by (simp add: replicate_append_same map_upt_Suc del: upt_Suc)
qed

text \<open>A command with bit 7 clear that the card accepts at once (response 0).\<close>

lemma SD_Send_Cmd_accept:
  assumes "cmd AND 0x80 = 0" and "rx s 8 = 0"
  shows "SD_Send_Cmd cmd arg s =
     (0, \<lparr>miso = drop 9 (miso s), tmr = tmr s,
       wire = wire s @
         [CS_High, Xfer 0xFF, CS_Low, Xfer 0xFF,
          Xfer cmd, Xfer (ucast (drop_bit 24 arg)), Xfer (ucast (drop_bit 16 arg)),
          Xfer (ucast (drop_bit 8 arg)), Xfer (ucast arg),
          Xfer (if cmd = CMD8 then 0x87 else if cmd = CMD0 then 0x95 else 0x01),
          Timer_On 5, Xfer 0xFF, Timer_Off]\<rparr>)"
  using SD_Send_Frame_run [of 0 s cmd arg] assms
  by (simp add: SD_Send_Cmd_plain)

text \<open>The wait for the data packet, and the two ways a read goes on after it.\<close>

lemma SD_Read_Wait_run:
  assumes "\<forall>j<i. rx s j = 0xFF \<and> tick s j" and "rx s i \<noteq> 0xFF \<or> \<not> tick s i"
  shows "SD_Read_Wait s =
     (rx s i,
      \<lparr>miso = drop (Suc i) (miso s),
       tmr = drop (if rx s i = 0xFF then Suc i else i) (tmr s),
       wire = wire s @ [Timer_On 100] @ replicate (Suc i) (Xfer 0xFF) @ [Timer_Off]\<rparr>)"
proof -
  let ?S = "\<lparr>miso = miso s, tmr = tmr s, wire = wire s @ [Timer_On 100]\<rparr>"
  have a: "\<forall>j<i. rx ?S j = 0xFF \<and> tick ?S j" using assms(1) by simp
  have b: "\<not> rx ?S i = 0xFF \<or> \<not> tick ?S i" using assms(2) by simp
  show ?thesis
    unfolding SD_Read_Wait_def
    by (simp add: spi_eqs poll_while_run [where p = "\<lambda>tkn. tkn = 0xFF", OF a b])
qed

lemma SD_Read_data:
  assumes "\<not> (sector > ucast (last_sector dev) \<or> cnt = 0)"
      and "SD_Send_Cmd CMD17 (sector * word_of_nat SD_BLK_SIZE) s = (0, s1)"
      and "SD_Read_Wait s1 = (0xFE, s2)"
  shows "SD_Read dev sector ofs cnt s =
     (SD_OK, map (\<lambda>j. rx s2 (unat ofs + j)) [0..<unat cnt],
      \<lparr>miso = drop (unat ofs + unat cnt + Suc (unat (514 - ofs - cnt - 1))) (miso s2),
       tmr = tmr s2,
       wire = wire s2 @ replicate (unat ofs) (Xfer 0xFF) @ replicate (unat cnt) (Xfer 0xFF)
              @ replicate (Suc (unat (514 - ofs - cnt - 1))) (Xfer 0xFF) @ [Release]\<rparr>)"
proof -
  from assms(1) have cnt: "cnt \<noteq> 0" by simp
  let ?s3 = "\<lparr>miso = drop (unat ofs) (miso s2), tmr = tmr s2,
              wire = wire s2 @ replicate (unat ofs) (Xfer 0xFF)\<rparr>"
  have s3: "(if ofs \<noteq> 0 then skip_loop ofs s2 else s2) = ?s3"
    by (cases "ofs = 0") (simp_all add: skip_loop_run unat_Suc_pred)
  have st: "store_loop [] cnt ?s3 =
      (map (\<lambda>j. rx s2 (unat ofs + j)) [0..<unat cnt],
       \<lparr>miso = drop (unat ofs + unat cnt) (miso s2), tmr = tmr s2,
        wire = wire s2 @ replicate (unat ofs) (Xfer 0xFF) @ replicate (unat cnt) (Xfer 0xFF)\<rparr>)"
    by (simp add: store_loop_run unat_Suc_pred [OF cnt] add.commute del: upt_Suc)
  show ?thesis
    using assms
    by (simp add: SD_Read_def s3 st skip_loop_run SD_BLK_SIZE_def spi_eqs add.commute
        add.left_commute del: upt_Suc)
qed

lemma SD_Read_no_token:
  assumes "\<not> (sector > ucast (last_sector dev) \<or> cnt = 0)"
      and "SD_Send_Cmd CMD17 (sector * word_of_nat SD_BLK_SIZE) s = (0, s1)"
      and "SD_Read_Wait s1 = (tkn, s2)" and "tkn \<noteq> 0xFE"
  shows "SD_Read dev sector ofs cnt s = (SD_ERROR, [], SPI_Release s2)"
  using assms by (simp add: SD_Read_def)

lemma poll_index_read:
  "\<exists>i. (\<forall>j<i. rx s j = 0xFF \<and> tick s j) \<and> (rx s i \<noteq> 0xFF \<or> \<not> tick s i)"
  using poll_index [of "\<lambda>tkn. tkn = 0xFF" s] by simp

text \<open>
  C4 as stated (every byte other than \<open>0xFE\<close> is discarded and polling goes on until
  \<open>0xFE\<close> arrives or the timeout elapses; only a timeout yields the disk error) fails: the
  loop of \<open>SD_Read\<close> goes on only while it reads \<open>0xFF\<close>. Here the card answers the
  command, then sends \<open>0x01\<close> and then the token \<open>0xFE\<close>: the read stops at \<open>0x01\<close> with
  \<open>SD_ERROR\<close>, the token is still to come and the timer was never found expired (both of
  its answers are left).
\<close>

theorem SD_Read_token_wait_counterexample:
  "SD_Read \<lparr>mount = TRUE, cardtype = SDCT_SD1, last_sector = 3\<rparr> 0 0 1
     \<lparr>miso = [0xFF, 0xFF, 0xFF, 0xFF, 0xFF, 0xFF, 0xFF, 0xFF, 0x00, 0x01, 0xFE, 0xAA],
      tmr = [True, True], wire = []\<rparr>
   = (SD_ERROR, [],
      \<lparr>miso = [0xFE, 0xAA], tmr = [True, True],
       wire = [CS_High, Xfer 0xFF, CS_Low, Xfer 0xFF, Xfer 0x51, Xfer 0, Xfer 0, Xfer 0,
               Xfer 0, Xfer 0x01, Timer_On 5, Xfer 0xFF, Timer_Off,
               Timer_On 100, Xfer 0xFF, Timer_Off, Release]\<rparr>)"
proof -
  let ?dev = "\<lparr>mount = TRUE, cardtype = SDCT_SD1, last_sector = 3\<rparr>"
  let ?s = "\<lparr>miso = [0xFF, 0xFF, 0xFF, 0xFF, 0xFF, 0xFF, 0xFF, 0xFF, 0x00, 0x01, 0xFE, 0xAA],
      tmr = [True, True], wire = []\<rparr>"
  let ?s1 = "\<lparr>miso = [0x01, 0xFE, 0xAA], tmr = [True, True],
       wire = [CS_High, Xfer 0xFF, CS_Low, Xfer 0xFF, Xfer 0x51, Xfer 0, Xfer 0, Xfer 0,
               Xfer 0, Xfer 0x01, Timer_On 5, Xfer 0xFF, Timer_Off]\<rparr>"
  let ?s2 = "\<lparr>miso = [0xFE, 0xAA], tmr = [True, True],
       wire = [CS_High, Xfer 0xFF, CS_Low, Xfer 0xFF, Xfer 0x51, Xfer 0, Xfer 0, Xfer 0,
               Xfer 0, Xfer 0x01, Timer_On 5, Xfer 0xFF, Timer_Off,
               Timer_On 100, Xfer 0xFF, Timer_Off]\<rparr>"
  have g: "\<not> ((0::32 word) > ucast (last_sector ?dev) \<or> (1::16 word) = 0)" by simp
  have c: "SD_Send_Cmd CMD17 (0 * word_of_nat SD_BLK_SIZE) ?s = (0, ?s1)"
    using SD_Send_Cmd_accept [of CMD17 ?s 0] by (simp add: cmd_defs rx_def nth_default_def)
  have w: "SD_Read_Wait ?s1 = (0x01, ?s2)"
    using SD_Read_Wait_run [of 0 ?s1] by (simp add: rx_def nth_default_def)
  show ?thesis
    using SD_Read_no_token [OF g c w, of 0] by (simp add: spi_eqs)
qed

text \<open>
  C4, amended: during the wait for the start-of-data token only \<open>0xFF\<close> bytes are
  discarded. Polling goes on while the byte read is \<open>0xFF\<close> and the 100 ms timer runs; it
  stops at the first byte other than \<open>0xFF\<close>, or at the timeout. The read goes on (and
  returns \<open>SD_OK\<close>) exactly when the byte polled last is \<open>0xFE\<close>; in every other case,
  timeout or not, it returns the generic disk error.
\<close>

theorem SD_Read_token_wait:
  assumes "\<not> (sector > ucast (last_sector dev) \<or> cnt = 0)"
      and "SD_Send_Cmd CMD17 (sector * word_of_nat SD_BLK_SIZE) s = (0, s1)"
  shows "\<exists>i. (\<forall>j<i. rx s1 j = 0xFF \<and> tick s1 j)
           \<and> (rx s1 i \<noteq> 0xFF \<or> \<not> tick s1 i)
           \<and> fst (SD_Read_Wait s1) = rx s1 i
           \<and> wire (snd (SD_Read_Wait s1)) =
                wire s1 @ [Timer_On 100] @ replicate (Suc i) (Xfer 0xFF) @ [Timer_Off]
           \<and> fst (SD_Read dev sector ofs cnt s) = (if rx s1 i = 0xFE then SD_OK else SD_ERROR)"
proof -
  obtain i where i: "\<forall>j<i. rx s1 j = 0xFF \<and> tick s1 j" "rx s1 i \<noteq> 0xFF \<or> \<not> tick s1 i"
    using poll_index_read [of s1] by blast
  note w = SD_Read_Wait_run [OF i]
  have "fst (SD_Read dev sector ofs cnt s) = (if rx s1 i = 0xFE then SD_OK else SD_ERROR)"
  proof (cases "rx s1 i = 0xFE")
    case True
    with w SD_Read_data [OF assms, of _ ofs] show ?thesis by simp
  next
    case False
    with w SD_Read_no_token [OF assms, of "rx s1 i" _ ofs] show ?thesis by simp
  qed
  with i w show ?thesis by (intro exI [of _ i]) simp
qed

theorem SD_Read_token_wait_witness:
  "\<not> ((0::32 word) > ucast (last_sector \<lparr>mount = TRUE, cardtype = SDCT_SD1, last_sector = 3\<rparr>)
       \<or> (1::16 word) = 0)
   \<and> SD_Send_Cmd CMD17 (0 * word_of_nat SD_BLK_SIZE)
         \<lparr>miso = [0xFF, 0xFF, 0xFF, 0xFF, 0xFF, 0xFF, 0xFF, 0xFF, 0x00, 0xFF, 0xFF, 0xFE, 0xAA],
          tmr = [True, True, True], wire = []\<rparr>
       = (0, \<lparr>miso = [0xFF, 0xFF, 0xFE, 0xAA], tmr = [True, True, True],
           wire = [CS_High, Xfer 0xFF, CS_Low, Xfer 0xFF, Xfer 0x51, Xfer 0, Xfer 0, Xfer 0,
                   Xfer 0, Xfer 0x01, Timer_On 5, Xfer 0xFF, Timer_Off]\<rparr>)
   \<and> fst (SD_Read \<lparr>mount = TRUE, cardtype = SDCT_SD1, last_sector = 3\<rparr> 0 0 1
         \<lparr>miso = [0xFF, 0xFF, 0xFF, 0xFF, 0xFF, 0xFF, 0xFF, 0xFF, 0x00, 0xFF, 0xFF, 0xFE, 0xAA],
          tmr = [True, True, True], wire = []\<rparr>) = SD_OK"
proof -
  let ?dev = "\<lparr>mount = TRUE, cardtype = SDCT_SD1, last_sector = 3\<rparr>"
  let ?s = "\<lparr>miso = [0xFF, 0xFF, 0xFF, 0xFF, 0xFF, 0xFF, 0xFF, 0xFF, 0x00, 0xFF, 0xFF, 0xFE, 0xAA],
      tmr = [True, True, True], wire = []\<rparr>"
  let ?s1 = "\<lparr>miso = [0xFF, 0xFF, 0xFE, 0xAA], tmr = [True, True, True],
       wire = [CS_High, Xfer 0xFF, CS_Low, Xfer 0xFF, Xfer 0x51, Xfer 0, Xfer 0, Xfer 0,
               Xfer 0, Xfer 0x01, Timer_On 5, Xfer 0xFF, Timer_Off]\<rparr>"
  have g: "\<not> ((0::32 word) > ucast (last_sector ?dev) \<or> (1::16 word) = 0)" by simp
  have c: "SD_Send_Cmd CMD17 (0 * word_of_nat SD_BLK_SIZE) ?s = (0, ?s1)"
    using SD_Send_Cmd_accept [of CMD17 ?s 0] by (simp add: cmd_defs rx_def nth_default_def)
  obtain i where i: "\<forall>j<i. rx ?s1 j = 0xFF \<and> tick ?s1 j" "rx ?s1 i \<noteq> 0xFF \<or> \<not> tick ?s1 i"
      and r: "fst (SD_Read ?dev 0 0 1 ?s) = (if rx ?s1 i = 0xFE then SD_OK else SD_ERROR)"
    using SD_Read_token_wait [OF g c, of 0] by blast
  have "i = 2"
  proof (rule ccontr)
    assume "i \<noteq> 2"
    then consider "i = 0" | "i = 1" | "2 < i" by linarith
    then show False
    proof cases
      case 1 with i(2) show False by (simp add: rx_def tick_def nth_default_def)
    next
      case 2 with i(2) show False by (simp add: rx_def tick_def nth_default_def)
    next
      case 3 with i(1) have "rx ?s1 2 = 0xFF" by blast
      then show False by (simp add: rx_def nth_default_def)
    qed
  qed
  with r have "fst (SD_Read ?dev 0 0 1 ?s) = SD_OK" by (simp add: rx_def nth_default_def)
  with g c show ?thesis by blast
qed

text \<open>The bytes left after offset and count, for a range inside the sector.\<close>

lemma remaining_unat:
  fixes ofs cnt :: "16 word"
  assumes "unat ofs + unat cnt \<le> 512"
  shows "Suc (unat (514 - ofs - cnt - 1)) = 514 - unat ofs - unat cnt"
proof -
  have o: "ofs \<le> 514" using assms by (simp add: word_le_nat_alt)
  have 1: "unat (514 - ofs) = 514 - unat ofs" using unat_sub [OF o] by simp
  have c: "cnt \<le> 514 - ofs" using assms 1 by (simp add: word_le_nat_alt)
  have 2: "unat (514 - ofs - cnt) = 514 - unat ofs - unat cnt" using unat_sub [OF c] 1 by simp
  then have "514 - ofs - cnt \<noteq> 0" using assms by (auto simp: unat_eq_0 [symmetric])
  from unat_Suc_pred [OF this] 2 show ?thesis by simp
qed

text \<open>
  C6: for every offset in \<open>0..511\<close> and count in \<open>1..512\<close> with offset + count \<open>\<le> 512\<close>, a
  read that succeeds has seen the token \<open>0xFE\<close> and then clocks exactly \<open>512 + 2\<close> bytes
  before it releases the card: offset bytes skipped, count bytes stored in the
  destination (the bytes that follow the skipped ones), and \<open>512 + 2\<close> - offset - count
  bytes discarded.
\<close>

theorem SD_Read_clocks_514:
  assumes "unat ofs \<le> 511" and "1 \<le> unat cnt" and "unat cnt \<le> 512"
      and "unat ofs + unat cnt \<le> 512"
      and "fst (SD_Read dev sector ofs cnt s) = SD_OK"
  shows "let t = snd (SD_Read_Wait (snd (SD_Send_Cmd CMD17 (sector * word_of_nat SD_BLK_SIZE) s)));
             s' = snd (snd (SD_Read dev sector ofs cnt s))
         in fst (SD_Read_Wait (snd (SD_Send_Cmd CMD17 (sector * word_of_nat SD_BLK_SIZE) s))) = 0xFE
          \<and> wire s' = wire t @ replicate (unat ofs) (Xfer 0xFF) @ replicate (unat cnt) (Xfer 0xFF)
                @ replicate (SD_BLK_SIZE + 2 - unat ofs - unat cnt) (Xfer 0xFF) @ [Release]
          \<and> miso s' = drop (SD_BLK_SIZE + 2) (miso t)
          \<and> fst (snd (SD_Read dev sector ofs cnt s)) = map (\<lambda>j. rx t (unat ofs + j)) [0..<unat cnt]"
proof -
  obtain r s1 where c: "SD_Send_Cmd CMD17 (sector * word_of_nat SD_BLK_SIZE) s = (r, s1)" by force
  obtain tkn s2 where w: "SD_Read_Wait s1 = (tkn, s2)" by force
  from assms(5) have g: "\<not> (sector > ucast (last_sector dev) \<or> cnt = 0)"
    by (auto simp: SD_Read_def)
  from assms(5) g c have r: "r = 0"
    by (auto simp: SD_Read_def split: if_splits)
  from assms(5) g c w r have tkn: "tkn = 0xFE"
    by (auto simp: SD_Read_def split: if_splits)
  note d = SD_Read_data [OF g c [unfolded r] w [unfolded tkn], of ofs,
      unfolded remaining_unat [OF assms(4)]]
  have m: "unat ofs + unat cnt + (514 - unat ofs - unat cnt) = 514" using assms(4) by simp
  show ?thesis
    unfolding Let_def c w d snd_conv fst_conv m tkn
    by (simp add: SD_BLK_SIZE_def)
qed

theorem SD_Read_clocks_514_witness:
  "fst (SD_Read \<lparr>mount = TRUE, cardtype = SDCT_SD1, last_sector = 3\<rparr> 0 1 2
         \<lparr>miso = [0xFF, 0xFF, 0xFF, 0xFF, 0xFF, 0xFF, 0xFF, 0xFF, 0x00, 0xFE, 0x11, 0x22, 0x33],
          tmr = [], wire = []\<rparr>) = SD_OK
   \<and> fst (snd (SD_Read \<lparr>mount = TRUE, cardtype = SDCT_SD1, last_sector = 3\<rparr> 0 1 2
         \<lparr>miso = [0xFF, 0xFF, 0xFF, 0xFF, 0xFF, 0xFF, 0xFF, 0xFF, 0x00, 0xFE, 0x11, 0x22, 0x33],
          tmr = [], wire = []\<rparr>)) = [0x22, 0x33]
   \<and> wire (snd (snd (SD_Read \<lparr>mount = TRUE, cardtype = SDCT_SD1, last_sector = 3\<rparr> 0 1 2
         \<lparr>miso = [0xFF, 0xFF, 0xFF, 0xFF, 0xFF, 0xFF, 0xFF, 0xFF, 0x00, 0xFE, 0x11, 0x22, 0x33],
          tmr = [], wire = []\<rparr>)))
       = [CS_High, Xfer 0xFF, CS_Low, Xfer 0xFF, Xfer 0x51, Xfer 0, Xfer 0, Xfer 0,
          Xfer 0, Xfer 0x01, Timer_On 5, Xfer 0xFF, Timer_Off, Timer_On 100, Xfer 0xFF, Timer_Off]
         @ replicate 1 (Xfer 0xFF) @ replicate 2 (Xfer 0xFF) @ replicate 511 (Xfer 0xFF)
         @ [Release]"
proof -
  let ?dev = "\<lparr>mount = TRUE, cardtype = SDCT_SD1, last_sector = 3\<rparr>"
  let ?s = "\<lparr>miso = [0xFF, 0xFF, 0xFF, 0xFF, 0xFF, 0xFF, 0xFF, 0xFF, 0x00, 0xFE, 0x11, 0x22, 0x33],
      tmr = [], wire = []\<rparr>"
  let ?s1 = "\<lparr>miso = [0xFE, 0x11, 0x22, 0x33], tmr = [],
       wire = [CS_High, Xfer 0xFF, CS_Low, Xfer 0xFF, Xfer 0x51, Xfer 0, Xfer 0, Xfer 0,
               Xfer 0, Xfer 0x01, Timer_On 5, Xfer 0xFF, Timer_Off]\<rparr>"
  let ?s2 = "\<lparr>miso = [0x11, 0x22, 0x33], tmr = [],
       wire = [CS_High, Xfer 0xFF, CS_Low, Xfer 0xFF, Xfer 0x51, Xfer 0, Xfer 0, Xfer 0,
               Xfer 0, Xfer 0x01, Timer_On 5, Xfer 0xFF, Timer_Off,
               Timer_On 100, Xfer 0xFF, Timer_Off]\<rparr>"
  have g: "\<not> ((0::32 word) > ucast (last_sector ?dev) \<or> (2::16 word) = 0)" by simp
  have c: "SD_Send_Cmd CMD17 (0 * word_of_nat SD_BLK_SIZE) ?s = (0, ?s1)"
    using SD_Send_Cmd_accept [of CMD17 ?s 0] by (simp add: cmd_defs rx_def nth_default_def)
  have w: "SD_Read_Wait ?s1 = (0xFE, ?s2)"
    using SD_Read_Wait_run [of 0 ?s1] by (simp add: rx_def nth_default_def)
  have run: "fst (SD_Read ?dev 0 1 2 ?s) = SD_OK"
    using SD_Read_data [OF g c w, of 1] by simp
  have h: "unat (1::16 word) \<le> 511" "1 \<le> unat (2::16 word)" "unat (2::16 word) \<le> 512"
    "unat (1::16 word) + unat (2::16 word) \<le> 512" by simp_all
  have c0: "SD_Send_Cmd CMD17 0 ?s = (0, ?s1)" using c by simp
  show ?thesis
    using run SD_Read_clocks_514 [OF h run]
    by (simp add: Let_def c0 w SD_BLK_SIZE_def rx_def nth_default_def upt_rec)
qed


section \<open>Properties of the sector write\<close>

text \<open>
  Sending the block, the wait for the end of programming, and \<open>__SD_Write_Block\<close> up to
  the data response.
\<close>

lemma send_block:
  "fold (\<lambda>idx s. snd (SPI_RW (dat ! idx) s)) [0..<n] s =
     \<lparr>miso = drop n (miso s), tmr = tmr s,
      wire = wire s @ map (\<lambda>idx. Xfer (dat ! idx)) [0..<n]\<rparr>"
  by (induction n) (simp_all add: spi_eqs)

lemma SD_Write_Wait_run:
  assumes "\<forall>j<i. rx s j = 0 \<and> tick s j" and "rx s i \<noteq> 0 \<or> \<not> tick s i"
  shows "SD_Write_Wait s =
     (if rx s i = 0 then SD_BUSY else SD_OK,
      \<lparr>miso = drop (Suc i) (miso s),
       tmr = drop (if rx s i = 0 then Suc i else i) (tmr s),
       wire = wire s @ [Timer_On 250] @ replicate (Suc i) (Xfer 0xFF) @ [Timer_Off]\<rparr>)"
proof -
  let ?S = "\<lparr>miso = miso s, tmr = tmr s, wire = wire s @ [Timer_On 250]\<rparr>"
  have a: "\<forall>j<i. rx ?S j = 0 \<and> tick ?S j" using assms(1) by simp
  have b: "\<not> rx ?S i = 0 \<or> \<not> tick ?S i" using assms(2) by simp
  show ?thesis
    unfolding SD_Write_Wait_def
    by (simp add: spi_eqs SD_IO_WRITE_TIMEOUT_WAIT_def
        poll_while_run [where p = "\<lambda>line. line = 0", OF a b])
qed

lemma SD_Write_Block_data:
  assumes "token \<noteq> 0xFD" and "length dat = SD_BLK_SIZE"
  shows "SD_Write_Block dev dat token s =
     (let s1 = \<lparr>miso = drop 516 (miso s), tmr = tmr s,
                wire = wire s @ Xfer token # map Xfer dat @ [Xfer 0xFF, Xfer 0xFF, Xfer 0xFF]\<rparr>
      in if rx s 515 AND 0x1F \<noteq> 0x05 then (SD_REJECT, s1) else SD_Write_Wait s1)"
proof -
  have "map (\<lambda>idx. Xfer (dat ! idx)) [0..<length dat] = map Xfer (map ((!) dat) [0..<length dat])"
    by simp
  also have "\<dots> = map Xfer dat" by (simp only: map_nth)
  finally have m: "map (\<lambda>idx. Xfer (dat ! idx)) [0..<512] = map Xfer dat"
    using assms(2) by (simp add: SD_BLK_SIZE_def)
  show ?thesis
    using assms(1)
    by (simp only: SD_Write_Block_def send_block)
       (simp add: spi_eqs SD_BLK_SIZE_def m Let_def)
qed

text \<open>
  C5: in a write transfer (any token but \<open>0xFD\<close>, with a block of 512 bytes) the data
  response is the byte received after the token, the 512 data bytes and the two CRC
  bytes. When its low 5 bits are not \<open>0b00101\<close> the function returns \<open>SD_REJECT\<close> right
  after that exchange: no timer is started and nothing more is polled. Otherwise it starts
  the timer of \<open>SD_IO_WRITE_TIMEOUT_WAIT\<close> = 250 ms and polls: all bytes before the last are
  0 with the timer running, and the last byte polled is non-zero, which gives \<open>SD_OK\<close>, or
  is 0 with the timer expired, which gives \<open>SD_BUSY\<close>.
\<close>

theorem SD_Write_Block_response:
  assumes "token \<noteq> 0xFD" and "length dat = SD_BLK_SIZE"
  shows "\<exists>i. (\<forall>j<i. rx s (516 + j) = 0 \<and> tick s j)
       \<and> (rx s (516 + i) \<noteq> 0 \<or> \<not> tick s i)
       \<and> SD_Write_Block dev dat token s =
           (if rx s 515 AND 0x1F \<noteq> 0x05 then
              (SD_REJECT,
               \<lparr>miso = drop 516 (miso s), tmr = tmr s,
                wire = wire s @ Xfer token # map Xfer dat @ [Xfer 0xFF, Xfer 0xFF, Xfer 0xFF]\<rparr>)
            else
              (if rx s (516 + i) = 0 then SD_BUSY else SD_OK,
               \<lparr>miso = drop (517 + i) (miso s),
                tmr = drop (if rx s (516 + i) = 0 then Suc i else i) (tmr s),
                wire = wire s @ Xfer token # map Xfer dat @ [Xfer 0xFF, Xfer 0xFF, Xfer 0xFF]
                       @ [Timer_On SD_IO_WRITE_TIMEOUT_WAIT] @ replicate (Suc i) (Xfer 0xFF)
                       @ [Timer_Off]\<rparr>))"
proof -
  let ?s1 = "\<lparr>miso = drop 516 (miso s), tmr = tmr s,
     wire = wire s @ Xfer token # map Xfer dat @ [Xfer 0xFF, Xfer 0xFF, Xfer 0xFF]\<rparr>"
  obtain i where i: "\<forall>j<i. rx ?s1 j = 0 \<and> tick ?s1 j" "rx ?s1 i \<noteq> 0 \<or> \<not> tick ?s1 i"
    using poll_index [of "\<lambda>line. line = 0" ?s1] by auto
  from SD_Write_Wait_run [OF i] i SD_Write_Block_data [OF assms, of dev s]
  show ?thesis
    by (intro exI [of _ i]) (simp add: SD_IO_WRITE_TIMEOUT_WAIT_def add.commute)
qed

theorem SD_Write_Block_response_witness:
  "SD_Write_Block \<lparr>mount = TRUE, cardtype = SDCT_SD1, last_sector = 3\<rparr> (replicate 512 0xA5) 0xFE
       \<lparr>miso = [], tmr = [], wire = []\<rparr>
     = (SD_REJECT, \<lparr>miso = [], tmr = [],
          wire = Xfer 0xFE # map Xfer (replicate 512 0xA5) @ [Xfer 0xFF, Xfer 0xFF, Xfer 0xFF]\<rparr>)
   \<and> fst (SD_Write_Block \<lparr>mount = TRUE, cardtype = SDCT_SD1, last_sector = 3\<rparr>
          (replicate 512 0xA5) 0xFE
          \<lparr>miso = replicate 515 0xFF @ [0x05, 0x00, 0x01], tmr = [True], wire = []\<rparr>) = SD_OK
   \<and> fst (SD_Write_Block \<lparr>mount = TRUE, cardtype = SDCT_SD1, last_sector = 3\<rparr>
          (replicate 512 0xA5) 0xFE
          \<lparr>miso = replicate 515 0xFF @ [0x05, 0x00, 0x00], tmr = [True], wire = []\<rparr>) = SD_BUSY"
proof -
  let ?dev = "\<lparr>mount = TRUE, cardtype = SDCT_SD1, last_sector = 3\<rparr>"
  let ?dat = "replicate 512 (0xA5 :: byte)"
  have t: "(0xFE :: byte) \<noteq> 0xFD" by simp
  have l: "length ?dat = SD_BLK_SIZE" by (simp add: SD_BLK_SIZE_def)
  let ?s = "\<lparr>miso = [], tmr = [], wire = []\<rparr>"
  have r: "SD_Write_Block ?dev ?dat 0xFE ?s
     = (SD_REJECT, \<lparr>miso = [], tmr = [],
          wire = Xfer 0xFE # map Xfer ?dat @ [Xfer 0xFF, Xfer 0xFF, Xfer 0xFF]\<rparr>)"
    using SD_Write_Block_response [OF t l, of ?s ?dev] by (auto simp: rx_def)
  let ?a = "\<lparr>miso = replicate 515 0xFF @ [0x05, 0x00, 0x01], tmr = [True], wire = []\<rparr>"
  have ra: "rx ?a 515 = 0x05" "rx ?a 516 = 0" "rx ?a 517 = 1" "tick ?a 0"
    by (simp_all add: rx_def tick_def nth_default_def nth_append)
  obtain i where i: "\<forall>j<i. rx ?a (516 + j) = 0 \<and> tick ?a j" "rx ?a (516 + i) \<noteq> 0 \<or> \<not> tick ?a i"
      and wa: "fst (SD_Write_Block ?dev ?dat 0xFE ?a) = (if rx ?a (516 + i) = 0 then SD_BUSY else SD_OK)"
    using SD_Write_Block_response [OF t l, of ?a ?dev] ra(1) by auto
  have "i = 1"
  proof (rule ccontr)
    assume "i \<noteq> 1"
    then consider "i = 0" | "1 < i" by linarith
    then show False
    proof cases
      case 1 with i(2) ra show False by simp
    next
      case 2 with i(1) have "rx ?a (516 + 1) = 0" by blast
      with ra show False by simp
    qed
  qed
  with wa ra have a: "fst (SD_Write_Block ?dev ?dat 0xFE ?a) = SD_OK" by simp
  let ?b = "\<lparr>miso = replicate 515 0xFF @ [0x05, 0x00, 0x00], tmr = [True], wire = []\<rparr>"
  have rb: "rx ?b 515 = 0x05" "rx ?b 516 = 0" "rx ?b 517 = 0" "tick ?b 0" "\<And>k. \<not> tick ?b (Suc k)"
    by (simp_all add: rx_def tick_def nth_default_def nth_append)
  obtain k where k: "\<forall>j<k. rx ?b (516 + j) = 0 \<and> tick ?b j" "rx ?b (516 + k) \<noteq> 0 \<or> \<not> tick ?b k"
      and wb: "fst (SD_Write_Block ?dev ?dat 0xFE ?b) = (if rx ?b (516 + k) = 0 then SD_BUSY else SD_OK)"
    using SD_Write_Block_response [OF t l, of ?b ?dev] rb(1) by auto
  have "k = 1"
  proof (rule ccontr)
    assume "k \<noteq> 1"
    then consider "k = 0" | "1 < k" by linarith
    then show False
    proof cases
      case 1 with k(2) rb show False by simp
    next
      case 2 with k(1) have "tick ?b 1" by blast
      with rb(5) [of 0] show False by simp
    qed
  qed
  with wb rb have b: "fst (SD_Write_Block ?dev ?dat 0xFE ?b) = SD_BUSY" by simp
  from r a b show ?thesis by blast
qed


section \<open>Properties of the capacity\<close>

text \<open>Reading shifts, masks and bitwise or on bytes as arithmetic.\<close>

lemma or_shift_nat:
  fixes x y :: nat
  assumes "y < 2 ^ n"
  shows "push_bit n x OR y = x * 2 ^ n + y"
proof -
  have y: "take_bit n y = y" using assms by (simp add: take_bit_nat_eq_self)
  have "push_bit n x AND take_bit n y = 0"
    by (simp add: bit_eq_iff bit_simps)
  then have "push_bit n x + take_bit n y = push_bit n x OR take_bit n y"
    by (rule disjunctive_add_eq_or)
  then show ?thesis by (simp add: y push_bit_eq_mult)
qed

lemma unat_byte_to_16: "unat (ucast (w :: 8 word) :: 16 word) = unat w"
proof -
  have "unat w < 2 ^ 8" using unsigned_less [of w] by simp
  then have "unat w < 2 ^ 16" by simp
  then show ?thesis by (simp add: unsigned_ucast_eq take_bit_nat_eq_self)
qed

lemma unat_and_mask: "unat ((w :: 'a::len word) AND mask n) = unat w mod 2 ^ n"
proof -
  have "w AND mask n = take_bit n w" by (simp only: take_bit_eq_mask)
  then have "unat (w AND mask n) = take_bit n (unat w)" by (simp only: unsigned_take_bit_eq)
  then show ?thesis by (simp only: take_bit_eq_mod)
qed

lemma unat_and_3: "unat ((w :: 8 word) AND 3) = unat w mod 4"
  using unat_and_mask [of w 2] by (simp add: mask_eq_exp_minus_1)

lemma unat_and_15: "unat ((w :: 8 word) AND 15) = unat w mod 16"
  using unat_and_mask [of w 4] by (simp add: mask_eq_exp_minus_1)

lemma unat_and_1: "unat ((w :: 8 word) AND 1) = unat w mod 2"
  using unat_and_mask [of w 1] by (simp add: mask_eq_exp_minus_1)

lemma unat_and_63: "unat ((w :: 8 word) AND 63) = unat w mod 64"
  using unat_and_mask [of w 6] by (simp add: mask_eq_exp_minus_1)

lemma unat_drop_byte: "unat (drop_bit n (w :: 8 word)) = unat w div 2 ^ n"
proof -
  have "unat (drop_bit n w) = drop_bit n (unat w)" by (rule unat_drop_bit_eq)
  also have "\<dots> = unat w div 2 ^ n" by (rule drop_bit_eq_div)
  finally show ?thesis .
qed

lemma unat_push:
  fixes w :: "'a::len word"
  assumes "unat w * 2 ^ n < 2 ^ LENGTH('a)"
  shows "unat (push_bit n w) = unat w * 2 ^ n"
proof -
  have "unat (push_bit n w) = take_bit LENGTH('a) (push_bit n (unat w))"
    by (simp only: unsigned_push_bit_eq)
  also have "\<dots> = take_bit LENGTH('a) (unat w * 2 ^ n)" by (simp only: push_bit_eq_mult)
  also have "\<dots> = unat w * 2 ^ n" using assms by (simp only: take_bit_nat_eq_self)
  finally show ?thesis .
qed

lemma unat_or_shift:
  fixes a b :: "'a::len word"
  assumes "unat a * 2 ^ n < 2 ^ LENGTH('a)" and "unat b < 2 ^ n"
  shows "unat (push_bit n a OR b) = unat a * 2 ^ n + unat b"
proof -
  have "unat (push_bit n a OR b) = unat (push_bit n a) OR unat b" by (simp only: unsigned_or_eq)
  also have "\<dots> = unat a * 2 ^ n OR unat b" by (simp only: unat_push [OF assms(1)])
  also have "\<dots> = push_bit n (unat a) OR unat b" by (simp only: push_bit_eq_mult)
  also have "\<dots> = unat a * 2 ^ n + unat b" by (rule or_shift_nat [OF assms(2)])
  finally show ?thesis .
qed


lemma byte_less: "unat (w :: 8 word) < 256"
  using unsigned_less [of w] by simp

text \<open>The fields of an SD version 1 card, and of a version 2 card, as numbers.\<close>

lemma SD1_C_SIZE:
  fixes b6 b7 b8 :: byte
  shows "unat (push_bit 2 (push_bit 8 (ucast (b6 AND 0x03) :: 16 word) OR ucast b7)
               OR ucast (drop_bit 6 b8 AND 0x03))
         = (unat b6 mod 4) * 1024 + unat b7 * 4 + unat b8 div 64"
proof -
  let ?c1 = "ucast (b6 AND 0x03) :: 16 word"
  let ?c2 = "push_bit 8 ?c1 OR ucast b7"
  let ?lo = "ucast (drop_bit 6 b8 AND 0x03) :: 16 word"
  have c1: "unat ?c1 = unat b6 mod 4" by (simp only: unat_byte_to_16 unat_and_3)
  have b7: "unat (ucast b7 :: 16 word) < 2 ^ 8"
    using byte_less [of b7] by (simp only: unat_byte_to_16) simp
  have c2: "unat ?c2 = (unat b6 mod 4) * 256 + unat b7"
    using unat_or_shift [of ?c1 8 "ucast b7", OF _ b7] c1 by (simp add: unat_byte_to_16)
  have "unat b8 div 64 < 4" using byte_less [of b8] by simp
  then have lo: "unat ?lo = unat b8 div 64"
    using unat_drop_byte [of 6 b8] by (simp only: unat_byte_to_16 unat_and_3) simp
  have lo4: "unat ?lo < 2 ^ 2" using lo \<open>unat b8 div 64 < 4\<close> by simp
  have "unat ?c2 * 2 ^ 2 < 2 ^ LENGTH(16)" using c2 byte_less [of b7] by simp
  from unat_or_shift [OF this lo4] c2 lo show ?thesis by simp
qed

lemma SD1_C_SIZE_MULT:
  fixes b9 b10 :: byte
  shows "unat (push_bit 1 (b9 AND 0x03) OR (drop_bit 7 b10 AND 0x01))
         = (unat b9 mod 4) * 2 + unat b10 div 128"
proof -
  have "unat b10 div 128 < 2" using byte_less [of b10] by simp
  then have lo: "unat (drop_bit 7 b10 AND 0x01) = unat b10 div 128"
    using unat_drop_byte [of 7 b10] by (simp only: unat_and_1) simp
  have lo2: "unat (drop_bit 7 b10 AND 0x01) < 2 ^ 1" using lo \<open>unat b10 div 128 < 2\<close> by simp
  have "unat (b9 AND 0x03) * 2 ^ 1 < 2 ^ LENGTH(8)" by (simp add: unat_and_3)
  from unat_or_shift [OF this lo2] lo show ?thesis by (simp add: unat_and_3)
qed

lemma SD2_C_SIZE:
  fixes b7 b8 b9 :: byte
  shows "unat (push_bit 8 (push_bit 8 (ucast (b7 AND 0x3F) :: 16 word) OR ucast (b8 AND 0xFF))
               OR ucast (b9 AND 0xFF))
         = unat b8 * 256 + unat b9"
proof -
  let ?c1 = "ucast (b7 AND 0x3F) :: 16 word"
  let ?X = "push_bit 8 ?c1 OR ucast b8"
  have c1: "unat ?c1 = unat b7 mod 64" by (simp only: unat_byte_to_16 unat_and_63)
  have b8: "unat (ucast b8 :: 16 word) < 2 ^ 8"
    using byte_less [of b8] by (simp only: unat_byte_to_16) simp
  have X: "unat ?X = (unat b7 mod 64) * 256 + unat b8"
    using unat_or_shift [of ?c1 8 "ucast b8", OF _ b8] c1 by (simp add: unat_byte_to_16)
  have "unat (push_bit 8 ?X) = take_bit 16 (push_bit 8 (unat ?X))"
    by (simp only: unsigned_push_bit_eq) simp
  also have "\<dots> = ((unat b7 mod 64) * 65536 + unat b8 * 256) mod 65536"
    by (simp only: X) (simp add: push_bit_eq_mult take_bit_eq_mod algebra_simps)
  also have "\<dots> = unat b8 * 256" using byte_less [of b8] by simp
  finally have hi: "unat (push_bit 8 ?X) = push_bit 8 (unat b8)" by (simp add: push_bit_eq_mult)
  have "unat (push_bit 8 ?X OR ucast b9) = unat (push_bit 8 ?X) OR unat (ucast b9 :: 16 word)"
    by (simp only: unsigned_or_eq)
  also have "\<dots> = push_bit 8 (unat b8) OR unat b9" by (simp only: hi unat_byte_to_16)
  also have "\<dots> = unat b8 * 2 ^ 8 + unat b9"
    using byte_less [of b9] by (intro or_shift_nat) simp
  finally show ?thesis by (simp add: byte_all_ones)
qed

lemma SD_Sectors_fields_SD2:
  assumes "ct AND SDCT_SD1 = 0" and "ct AND SDCT_SD2 \<noteq> 0"
  shows "\<exists>C_SIZE. SD_Sectors_fields ct csd = (C_SIZE, 0, 0)
           \<and> unat C_SIZE = unat (csd ! 8) * 256 + unat (csd ! 9)"
proof -
  let ?C = "push_bit 8 (push_bit 8 (ucast (csd ! 7 AND 0x3F) :: 16 word) OR ucast (csd ! 8 AND 0xFF))
               OR ucast (csd ! 9 AND 0xFF)"
  have n: "\<not> ct AND SDCT_SD1 \<noteq> 0" using assms(1) by simp
  have "SD_Sectors_fields ct csd = (?C, 0, 0)"
    by (simp only: SD_Sectors_fields_def Let_def if_not_P [OF n] if_P [OF assms(2)])
  with SD2_C_SIZE [of "csd ! 7" "csd ! 8" "csd ! 9"] show ?thesis by blast
qed

text \<open>Running \<open>__SD_Sectors\<close> on a card that accepts \<open>CMD9\<close>.\<close>

lemma wait_csd_run:
  "(\<forall>j<i. rx s j = 0xFF) \<Longrightarrow> rx s i \<noteq> 0xFF \<Longrightarrow>
   wait_csd s = Some \<lparr>miso = drop (Suc i) (miso s), tmr = tmr s,
                      wire = wire s @ replicate (Suc i) (Xfer 0xFF)\<rparr>"
proof (induction i arbitrary: s)
  case 0
  then show ?case by (subst wait_csd.simps) (simp add: spi_eqs)
next
  case (Suc i)
  let ?s1 = "\<lparr>miso = drop 1 (miso s), tmr = tmr s, wire = wire s @ [Xfer 0xFF]\<rparr>"
  from Suc.prems have h0: "rx s 0 = 0xFF" by auto
  have a: "\<forall>j<i. rx ?s1 j = 0xFF" using Suc.prems(1) by simp
  have b: "rx ?s1 i \<noteq> 0xFF" using Suc.prems(2) by simp
  have "wait_csd s = wait_csd ?s1"
    using h0 by (subst wait_csd.simps) (simp add: spi_eqs)
  also note Suc.IH [OF a b]
  finally show ?case by (simp add: replicate_append_same)
qed

lemma read_bytes_run:
  "read_bytes n s =
     (map (rx s) [0..<n],
      \<lparr>miso = drop n (miso s), tmr = tmr s, wire = wire s @ replicate n (Xfer 0xFF)\<rparr>)"
proof (induction n arbitrary: s)
  case 0
  show ?case by simp
next
  case (Suc n)
  show ?case
    by (simp add: Suc.IH spi_eqs map_upt_Suc replicate_append_same del: upt_Suc)
qed

lemma rx_mk_fun: "rx \<lparr>miso = drop n (miso s), tmr = t, wire = w\<rparr> = (\<lambda>j. rx s (n + j))"
  by (rule ext) simp

lemma SD_Sectors_run:
  assumes "rx s 8 = 0" and "\<forall>j<i. rx s (9 + j) = 0xFF" and "rx s (9 + i) \<noteq> 0xFF"
  shows "map_option fst (SD_Sectors dev s) =
           Some (SD_Sectors_calc (cardtype dev) (map (\<lambda>k. rx s (10 + i + k)) [0..<16]))"
proof -
  have "CMD9 AND 0x80 = 0" by (simp add: CMD9_def)
  from SD_Send_Cmd_accept [OF this assms(1)]
  obtain w1 where c: "SD_Send_Cmd CMD9 0 s = (0, \<lparr>miso = drop 9 (miso s), tmr = tmr s, wire = w1\<rparr>)"
    by blast
  let ?s1 = "\<lparr>miso = drop 9 (miso s), tmr = tmr s, wire = w1\<rparr>"
  have a: "\<forall>j<i. rx ?s1 j = 0xFF" using assms(2) by simp
  have b: "rx ?s1 i \<noteq> 0xFF" using assms(3) by simp
  note w = wait_csd_run [OF a b]
  show ?thesis
    unfolding SD_Sectors_def c
    by (simp add: w read_bytes_run spi_eqs rx_mk_fun add.commute add.left_commute del: upt_Suc)
qed

text \<open>
  C7: for a device whose card type has the SD version 1 bit, the decoding takes
  \<open>READ_BL_LEN\<close> from the low 4 bits of byte 5 of the CSD, \<open>C_SIZE\<close> as the 12 bits made of
  the low 2 bits of byte 6, byte 7 and the top 2 bits of byte 8, and \<open>C_SIZE_MULT\<close> as the
  3 bits made of the low 2 bits of byte 9 and the top bit of byte 10. A CSD with
  \<open>C_SIZE = 0\<close>, \<open>C_SIZE_MULT = 0\<close> and \<open>READ_BL_LEN = 9\<close> gives 4 sectors.
\<close>

theorem SD_Sectors_fields_SD1:
  assumes "ct AND SDCT_SD1 \<noteq> 0" and "length csd = 16"
  shows "\<exists>C_SIZE C_SIZE_MULT READ_BL_LEN.
      SD_Sectors_fields ct csd = (C_SIZE, C_SIZE_MULT, READ_BL_LEN)
    \<and> unat READ_BL_LEN = unat (csd ! 5) mod 16
    \<and> unat C_SIZE = (unat (csd ! 6) mod 4) * 1024 + unat (csd ! 7) * 4 + unat (csd ! 8) div 64
    \<and> unat C_SIZE_MULT = (unat (csd ! 9) mod 4) * 2 + unat (csd ! 10) div 128
    \<and> (C_SIZE = 0 \<and> C_SIZE_MULT = 0 \<and> READ_BL_LEN = 9 \<longrightarrow> SD_Sectors_calc ct csd = 4)"
proof -
  let ?C = "push_bit 2 (push_bit 8 (ucast (csd ! 6 AND 0x03) :: 16 word) OR ucast (csd ! 7))
               OR ucast (drop_bit 6 (csd ! 8) AND 0x03)"
  let ?M = "push_bit 1 (csd ! 9 AND 0x03) OR (drop_bit 7 (csd ! 10) AND 0x01)"
  let ?R = "csd ! 5 AND 0x0F"
  have f: "SD_Sectors_fields ct csd = (?C, ?M, ?R)"
    by (simp only: SD_Sectors_fields_def Let_def if_P [OF assms(1)])
  have ss: "SD_Sectors_calc ct csd =
      (ucast ?C + 1) * SD_Power_Of_Two (?M + 2) * SD_Power_Of_Two ?R div word_of_nat SD_BLK_SIZE"
    by (simp only: SD_Sectors_calc_def f Let_def prod.case)
  have calc: "?C = 0 \<and> ?M = 0 \<and> ?R = 9 \<longrightarrow> SD_Sectors_calc ct csd = 4"
  proof (intro impI, elim conjE)
    assume c: "?C = 0" "?M = 0" "?R = 9"
    show "SD_Sectors_calc ct csd = 4"
      unfolding ss c by (simp add: SD_Power_Of_Two_def SD_BLK_SIZE_def)
  qed
  from f calc SD1_C_SIZE [of "csd ! 6" "csd ! 7" "csd ! 8"]
    SD1_C_SIZE_MULT [of "csd ! 9" "csd ! 10"] unat_and_15 [of "csd ! 5"]
  show ?thesis by blast
qed

theorem SD_Sectors_fields_SD1_witness:
  "SDCT_SD1 AND SDCT_SD1 \<noteq> 0
   \<and> SD_Sectors_fields SDCT_SD1 [0, 0, 0, 0, 0, 0x09, 0, 0, 0, 0, 0, 0, 0, 0, 0, 0] = (0, 0, 9)
   \<and> SD_Sectors_calc SDCT_SD1 [0, 0, 0, 0, 0, 0x09, 0, 0, 0, 0, 0, 0, 0, 0, 0, 0] = 4
   \<and> map_option fst (SD_Sectors \<lparr>mount = TRUE, cardtype = SDCT_SD1, last_sector = 0\<rparr>
        \<lparr>miso = [0xFF, 0xFF, 0xFF, 0xFF, 0xFF, 0xFF, 0xFF, 0xFF, 0x00, 0xFE,
                 0, 0, 0, 0, 0, 0x09, 0, 0, 0, 0, 0, 0, 0, 0, 0, 0, 0x12, 0x34],
         tmr = [], wire = []\<rparr>) = Some 4"
proof -
  let ?csd = "[0, 0, 0, 0, 0, 0x09, 0, 0, 0, 0, 0, 0, 0, 0, 0, 0] :: byte list"
  let ?s = "\<lparr>miso = [0xFF, 0xFF, 0xFF, 0xFF, 0xFF, 0xFF, 0xFF, 0xFF, 0x00, 0xFE,
                 0, 0, 0, 0, 0, 0x09, 0, 0, 0, 0, 0, 0, 0, 0, 0, 0, 0x12, 0x34],
         tmr = [], wire = []\<rparr>"
  have ct: "SDCT_SD1 AND SDCT_SD1 \<noteq> 0" by (simp add: SDCT_SD1_def)
  have len: "length ?csd = 16" by simp
  obtain C M R where f: "SD_Sectors_fields SDCT_SD1 ?csd = (C, M, R)"
      and R: "unat R = unat (?csd ! 5) mod 16"
      and C: "unat C = (unat (?csd ! 6) mod 4) * 1024 + unat (?csd ! 7) * 4 + unat (?csd ! 8) div 64"
      and M: "unat M = (unat (?csd ! 9) mod 4) * 2 + unat (?csd ! 10) div 128"
      and calc: "C = 0 \<and> M = 0 \<and> R = 9 \<longrightarrow> SD_Sectors_calc SDCT_SD1 ?csd = 4"
    using SD_Sectors_fields_SD1 [OF ct len] by blast
  from C have C0: "C = 0" by (simp add: unat_eq_0)
  from M have M0: "M = 0" by (simp add: unat_eq_0)
  from R have "unat R = unat (9 :: byte)" by simp
  then have R9: "R = 9" by (simp only: word_unat_eq_iff)
  have run: "map_option fst (SD_Sectors \<lparr>mount = TRUE, cardtype = SDCT_SD1, last_sector = 0\<rparr> ?s)
      = Some (SD_Sectors_calc SDCT_SD1 ?csd)"
    using SD_Sectors_run [of ?s 0 "\<lparr>mount = TRUE, cardtype = SDCT_SD1, last_sector = 0\<rparr>"]
    by (simp add: rx_def nth_default_def upt_rec)
  from ct f C0 M0 R9 calc run show ?thesis by simp
qed

text \<open>
  C3 (for an SD version 2 card \<open>C_SIZE\<close> is the full 22-bit field of the bytes 7 to 9
  and nothing is truncated): the code holds \<open>C_SIZE\<close> in a \<open>uint16_t\<close>, so the second
  \<open>C_SIZE <<= 8\<close> shifts the 6 bits taken from byte 7 out (lemma \<open>SD_Sectors_fields_SD2\<close>).
  For the CSD of a 64 GB card, with \<open>C_SIZE = 0x1DBBF = 121791\<close>, the code decodes
  \<open>0xDBBF = 56255\<close> and \<open>__SD_Sectors\<close> returns 439, where the 22-bit field gives 951 by
  the formula.
\<close>

theorem SD_Sectors_SD2_truncated:
  "spec_C_SIZE_SD2
      [0x40, 0x0E, 0x00, 0x32, 0x5B, 0x59, 0x00, 0x01, 0xDB, 0xBF, 0x7F, 0x80, 0x0A, 0x40, 0x00, 0x01]
     = 121791
   \<and> spec_sector_count 121791 0 0 = 951
   \<and> SD_Sectors_fields SDCT_SD2
      [0x40, 0x0E, 0x00, 0x32, 0x5B, 0x59, 0x00, 0x01, 0xDB, 0xBF, 0x7F, 0x80, 0x0A, 0x40, 0x00, 0x01]
     = (56255, 0, 0)
   \<and> map_option fst (SD_Sectors \<lparr>mount = TRUE, cardtype = SDCT_SD2, last_sector = 0\<rparr>
        \<lparr>miso = [0xFF, 0xFF, 0xFF, 0xFF, 0xFF, 0xFF, 0xFF, 0xFF, 0x00, 0xFE,
                 0x40, 0x0E, 0x00, 0x32, 0x5B, 0x59, 0x00, 0x01, 0xDB, 0xBF, 0x7F, 0x80, 0x0A,
                 0x40, 0x00, 0x01, 0x12, 0x34],
         tmr = [], wire = []\<rparr>) = Some 439"
proof -
  let ?csd = "[0x40, 0x0E, 0x00, 0x32, 0x5B, 0x59, 0x00, 0x01, 0xDB, 0xBF, 0x7F, 0x80, 0x0A, 0x40,
     0x00, 0x01] :: byte list"
  let ?s = "\<lparr>miso = [0xFF, 0xFF, 0xFF, 0xFF, 0xFF, 0xFF, 0xFF, 0xFF, 0x00, 0xFE,
                 0x40, 0x0E, 0x00, 0x32, 0x5B, 0x59, 0x00, 0x01, 0xDB, 0xBF, 0x7F, 0x80, 0x0A,
                 0x40, 0x00, 0x01, 0x12, 0x34],
         tmr = [], wire = []\<rparr>"
  have 1: "spec_C_SIZE_SD2 ?csd = 121791" by (simp add: spec_C_SIZE_SD2_def)
  have 2: "spec_sector_count 121791 0 0 = 951" by (simp add: spec_sector_count_def)
  have 3: "SD_Sectors_fields SDCT_SD2 ?csd = (56255, 0, 0)"
    by (simp add: SD_Sectors_fields_def SDCT_SD1_def SDCT_SD2_def)
  have 4: "SD_Sectors_calc SDCT_SD2 ?csd = 439"
    by (simp add: SD_Sectors_calc_def 3 SD_Power_Of_Two_def SD_BLK_SIZE_def)
  have run: "map_option fst (SD_Sectors \<lparr>mount = TRUE, cardtype = SDCT_SD2, last_sector = 0\<rparr> ?s)
      = Some (SD_Sectors_calc SDCT_SD2 ?csd)"
    using SD_Sectors_run [of ?s 0 "\<lparr>mount = TRUE, cardtype = SDCT_SD2, last_sector = 0\<rparr>"]
    by (simp add: rx_def nth_default_def upt_rec)
  from 1 2 3 4 run show ?thesis by simp
qed


section \<open>Properties of the initialisation\<close>

text \<open>Running the driver on a transport whose script is written out.\<close>

lemma SD_Send_Frame_cons:
  assumes "r AND 0x80 = 0"
  shows "SD_Send_Frame cmd arg
       \<lparr>miso = b0 # b1 # b2 # b3 # b4 # b5 # b6 # b7 # r # rest, tmr = t, wire = w\<rparr> =
     (r, \<lparr>miso = rest, tmr = t,
       wire = w @
         [CS_High, Xfer 0xFF, CS_Low, Xfer 0xFF,
          Xfer cmd, Xfer (ucast (drop_bit 24 arg)), Xfer (ucast (drop_bit 16 arg)),
          Xfer (ucast (drop_bit 8 arg)), Xfer (ucast arg),
          Xfer (if cmd = CMD8 then 0x87 else if cmd = CMD0 then 0x95 else 0x01),
          Timer_On 5, Xfer 0xFF, Timer_Off]\<rparr>)"
proof -
  let ?s = "\<lparr>miso = b0 # b1 # b2 # b3 # b4 # b5 # b6 # b7 # r # rest, tmr = t, wire = w\<rparr>"
  have r: "rx ?s (8 + 0) = r" by (simp add: rx_def nth_default_def)
  have a: "\<forall>j<0. rx ?s (8 + j) AND 0x80 \<noteq> 0 \<and> tick ?s j" by simp
  have b: "rx ?s (8 + 0) AND 0x80 = 0 \<or> \<not> tick ?s 0" unfolding r using assms by simp
  have d: "drop (9 + 0) (miso ?s) = rest" by simp
  show ?thesis
    unfolding SD_Send_Frame_run [OF a b] r d using assms by simp
qed

lemma SPI_RW_cons:
  "SPI_RW d \<lparr>miso = b # bs, tmr = t, wire = w\<rparr> = (b, \<lparr>miso = bs, tmr = t, wire = w @ [Xfer d]\<rparr>)"
  by (simp add: SPI_RW_def emit_def)

lemma SPI_Timer_Status_cons:
  "SPI_Timer_Status \<lparr>miso = m, tmr = b # bs, wire = w\<rparr> = (b, \<lparr>miso = m, tmr = bs, wire = w\<rparr>)"
  by (simp add: SPI_Timer_Status_def)

lemma emit_mk:
  "emit e \<lparr>miso = m, tmr = t, wire = w\<rparr> = \<lparr>miso = m, tmr = t, wire = w @ [e]\<rparr>"
  by (simp add: emit_def)

lemma dummy_clocks:
  "fold (\<lambda>idx s. snd (SPI_RW 0xFF s)) [0..<n] s =
     \<lparr>miso = drop n (miso s), tmr = tmr s, wire = wire s @ replicate n (Xfer 0xFF)\<rparr>"
  by (induction n) (simp_all add: spi_eqs replicate_append_same)

lemmas spi_run = SPI_RW_cons SPI_Timer_Status_cons emit_mk dummy_clocks
  SPI_Timer_On_def SPI_Timer_Off_def SPI_CS_Low_def SPI_CS_High_def SPI_Freq_Low_def
  SPI_Freq_High_def SPI_Init_def SPI_Release_def

text \<open>Storing a sector count minus one in the 16-bit \<open>last_sector\<close>.\<close>

lemma last_sector_trunc:
  fixes n :: "32 word"
  shows "unat (ucast (n - 1) :: 16 word) = unat (n - 1) mod 2 ^ 16"
proof -
  have "unat (ucast (n - 1) :: 16 word) = take_bit 16 (unat (n - 1))"
    by (simp only: unsigned_ucast_eq) simp
  then show ?thesis by (simp only: take_bit_eq_mod)
qed

lemma ucast_minus_one: "(ucast (0 - 1 :: 32 word) :: 16 word) = 0xFFFF"
proof -
  have "(0 - 1 :: 32 word) = 0xFFFFFFFF" by simp
  then show ?thesis by (simp only: ucast_bintr) simp
qed

text \<open>
  The descriptor read once \<open>CMD9\<close> is answered with 0: when the card then sends \<open>i\<close> bytes
  \<open>0xFF\<close> followed by a byte other than \<open>0xFF\<close>, \<open>__SD_Sectors\<close> returns, with the count
  decoded from the 16 bytes that follow that byte.
\<close>

lemma SD_Sectors_accept:
  assumes "SD_Send_Cmd CMD9 0 s = (0, s2)"
      and "\<forall>j<i. rx s2 j = 0xFF" and "rx s2 i \<noteq> 0xFF"
  shows "\<exists>s3. SD_Sectors dev s =
           Some (SD_Sectors_calc (cardtype dev) (map (\<lambda>k. rx s2 (Suc i + k)) [0..<16]), s3)"
  unfolding SD_Sectors_def assms(1)
  by (simp add: wait_csd_run [OF assms(2) assms(3)] read_bytes_run spi_eqs rx_mk_fun
      del: upt_Suc)

text \<open>
  C10: \<open>last_sector\<close> is a 16-bit field. Let the loop of \<open>SD_Init\<close> have detected a card
  type, and let \<open>r\<close> be the response of the card to the \<open>CMD9\<close> that \<open>__SD_Sectors\<close> sends.

  \<^item> When \<open>r = 0\<close> and the card then sends \<open>i\<close> bytes \<open>0xFF\<close>, a byte other than \<open>0xFF\<close> and
    the descriptor, \<open>SD_Init\<close> returns \<open>SD_OK\<close> with the device mounted and
    \<open>last_sector = (n - 1) mod 2^16\<close>, where \<open>n\<close> is the sector count decoded from the 16
    descriptor bytes (the subtraction in 32 bits); so for \<open>n > 2^16\<close> the bound that
    \<open>SD_Read\<close> and \<open>SD_Write\<close> test is below the last sector of the card.

  \<^item> When \<open>r \<noteq> 0\<close> (\<open>CMD9\<close> refused or not answered), \<open>__SD_Sectors\<close> returns 0 and \<open>SD_Init\<close>
    still returns \<open>SD_OK\<close>, with the device mounted and \<open>last_sector = 0xFFFF\<close>.
\<close>

theorem SD_Init_last_sector:
  assumes "SD_Init_loop 0 0 dev s = (ct, dev1, s1)" and "ct \<noteq> 0"
      and "SD_Send_Cmd CMD9 0 s1 = (r, s2)"
  shows "(r = 0 \<and> (\<forall>j<i. rx s2 j = 0xFF) \<and> rx s2 i \<noteq> 0xFF
            \<and> n = SD_Sectors_calc ct (map (\<lambda>k. rx s2 (Suc i + k)) [0..<16]) \<longrightarrow>
           (\<exists>dev' s'. SD_Init dev s = Some (SD_OK, dev', s')
              \<and> mount dev' = TRUE \<and> cardtype dev' = ct
              \<and> unat (last_sector dev') = unat (n - 1) mod 2 ^ 16
              \<and> (2 ^ 16 < unat n \<longrightarrow> unat (last_sector dev') < unat n - 1)))
       \<and> (r \<noteq> 0 \<longrightarrow>
           (\<exists>dev' s'. SD_Init dev s = Some (SD_OK, dev', s')
              \<and> mount dev' = TRUE \<and> cardtype dev' = ct \<and> last_sector dev' = 0xFFFF))"
proof -
  let ?dev2 = "dev1\<lparr>cardtype := ct, mount := TRUE\<rparr>"
  have run: "SD_Init dev s =
      Some (SD_OK, ?dev2\<lparr>last_sector := ucast (m - 1)\<rparr>, SPI_Release (SD_Speed_Transfer HIGH t))"
    if "SD_Sectors ?dev2 s1 = Some (m, t)" for m t
    using assms(1,2) that by (simp add: SD_Init_def)
  have stored: "\<exists>dev' s'. SD_Init dev s = Some (SD_OK, dev', s')
      \<and> mount dev' = TRUE \<and> cardtype dev' = ct \<and> last_sector dev' = ucast (m - 1)"
    if "SD_Sectors ?dev2 s1 = Some (m, t)" for m t
  proof -
    let ?dev' = "?dev2\<lparr>last_sector := ucast (m - 1)\<rparr>"
    have "mount ?dev' = TRUE" "cardtype ?dev' = ct" "last_sector ?dev' = ucast (m - 1)"
      by simp_all
    with run [OF that] show ?thesis by blast
  qed
  have ok: "\<exists>dev' s'. SD_Init dev s = Some (SD_OK, dev', s')
      \<and> mount dev' = TRUE \<and> cardtype dev' = ct
      \<and> unat (last_sector dev') = unat (n - 1) mod 2 ^ 16
      \<and> (2 ^ 16 < unat n \<longrightarrow> unat (last_sector dev') < unat n - 1)"
    if r: "r = 0" and a: "\<forall>j<i. rx s2 j = 0xFF" and b: "rx s2 i \<noteq> 0xFF"
      and n: "n = SD_Sectors_calc ct (map (\<lambda>k. rx s2 (Suc i + k)) [0..<16])"
  proof -
    from assms(3) r have c: "SD_Send_Cmd CMD9 0 s1 = (0, s2)" by simp
    have "cardtype ?dev2 = ct" by simp
    with SD_Sectors_accept [OF c a b, of ?dev2] n
    obtain s3 where sec: "SD_Sectors ?dev2 s1 = Some (n, s3)" by auto
    obtain dev' s' where d: "SD_Init dev s = Some (SD_OK, dev', s')" "mount dev' = TRUE"
        "cardtype dev' = ct" "last_sector dev' = ucast (n - 1)"
      using stored [OF sec] by blast
    have t: "unat (last_sector dev') = unat (n - 1) mod 2 ^ 16"
      unfolding d(4) by (rule last_sector_trunc)
    have "2 ^ 16 < unat n \<longrightarrow> unat (last_sector dev') < unat n - 1"
    proof
      assume b: "2 ^ 16 < unat n"
      then have "n \<noteq> 0" by auto
      then have "unat (n - 1) = unat n - 1" by (rule unat_minus_one)
      moreover have "unat (n - 1) mod 2 ^ 16 < 2 ^ 16" by simp
      ultimately show "unat (last_sector dev') < unat n - 1" using b t by linarith
    qed
    with d t show ?thesis by blast
  qed
  have refused: "\<exists>dev' s'. SD_Init dev s = Some (SD_OK, dev', s')
      \<and> mount dev' = TRUE \<and> cardtype dev' = ct \<and> last_sector dev' = 0xFFFF"
    if "r \<noteq> 0"
  proof -
    from that assms(3) have "SD_Sectors ?dev2 s1 = Some (0, s2)"
      by (simp add: SD_Sectors_def)
    from stored [OF this] show ?thesis by (simp only: ucast_minus_one)
  qed
  from ok refused show ?thesis by blast
qed

text \<open>
  An SD version 1 card answers the initialisation: \<open>CMD0\<close> twice with 1, \<open>CMD8\<close> with
  5 (illegal command), \<open>ACMD41\<close> with 1 and then 0, \<open>CMD59\<close> and \<open>CMD16\<close> with 0. Whatever it
  sends next is left for \<open>__SD_Sectors\<close>.
\<close>

lemma SD_Init_SD1_run:
  "\<exists>w. SD_Init_loop 0 0 \<lparr>mount = FALSE, cardtype = 0, last_sector = 0\<rparr>
      \<lparr>miso =
           0xFF # 0xFF # 0xFF # 0xFF # 0xFF # 0xFF # 0xFF # 0xFF # 0xFF # 0xFF # 0xFF #
           0xFF # 0xFF # 0xFF # 0xFF # 0xFF # 0xFF # 0xFF # 0x01 # 0xFF # 0xFF # 0xFF #
           0xFF # 0xFF # 0xFF # 0xFF # 0xFF # 0x01 # 0xFF # 0xFF # 0xFF # 0xFF # 0xFF #
           0xFF # 0xFF # 0xFF # 0x05 # 0xFF # 0xFF # 0xFF # 0xFF # 0xFF # 0xFF # 0xFF #
           0xFF # 0x01 # 0xFF # 0xFF # 0xFF # 0xFF # 0xFF # 0xFF # 0xFF # 0xFF # 0x01 #
           0xFF # 0xFF # 0xFF # 0xFF # 0xFF # 0xFF # 0xFF # 0xFF # 0x01 # 0xFF # 0xFF #
           0xFF # 0xFF # 0xFF # 0xFF # 0xFF # 0xFF # 0x00 # 0xFF # 0xFF # 0xFF # 0xFF #
           0xFF # 0xFF # 0xFF # 0xFF # 0x00 # 0xFF # 0xFF # 0xFF # 0xFF # 0xFF # 0xFF #
           0xFF # 0xFF # 0x00 # rest,
       tmr = [False, True, True], wire = []\<rparr>
   = (SDCT_SD1, \<lparr>mount = FALSE, cardtype = 0, last_sector = 0\<rparr>,
      \<lparr>miso = rest, tmr = [], wire = w\<rparr>)"
  by (simp add: SD_Init_loop.simps SD_Init_try_def wait_timer.simps wait_idle.simps
      wait_ready.simps SD_Send_Cmd_plain SD_Send_Cmd_app SD_Send_Frame_cons
      spi_run cmd_defs SD_INIT_TRYS_def SDCT_SD1_def SDCT_MMC_def FALSE_def)

theorem SD_Init_last_sector_witness:
  "(\<exists>dev' s'. SD_Init \<lparr>mount = FALSE, cardtype = 0, last_sector = 0\<rparr>
      \<lparr>miso =
           [0xFF, 0xFF, 0xFF, 0xFF, 0xFF, 0xFF, 0xFF, 0xFF, 0xFF, 0xFF, 0xFF, 0xFF, 0xFF,
            0xFF, 0xFF, 0xFF, 0xFF, 0xFF, 0x01, 0xFF, 0xFF, 0xFF, 0xFF, 0xFF, 0xFF, 0xFF,
            0xFF, 0x01, 0xFF, 0xFF, 0xFF, 0xFF, 0xFF, 0xFF, 0xFF, 0xFF, 0x05, 0xFF, 0xFF,
            0xFF, 0xFF, 0xFF, 0xFF, 0xFF, 0xFF, 0x01, 0xFF, 0xFF, 0xFF, 0xFF, 0xFF, 0xFF,
            0xFF, 0xFF, 0x01, 0xFF, 0xFF, 0xFF, 0xFF, 0xFF, 0xFF, 0xFF, 0xFF, 0x01, 0xFF,
            0xFF, 0xFF, 0xFF, 0xFF, 0xFF, 0xFF, 0xFF, 0x00, 0xFF, 0xFF, 0xFF, 0xFF, 0xFF,
            0xFF, 0xFF, 0xFF, 0x00, 0xFF, 0xFF, 0xFF, 0xFF, 0xFF, 0xFF, 0xFF, 0xFF, 0x00,
            0xFF, 0xFF, 0xFF, 0xFF, 0xFF, 0xFF, 0xFF, 0xFF, 0x04],
       tmr = [False, True, True], wire = []\<rparr> = Some (SD_OK, dev', s')
     \<and> mount dev' = TRUE \<and> cardtype dev' = SDCT_SD1 \<and> last_sector dev' = 0xFFFF)
   \<and> (\<exists>dev' s'. SD_Init \<lparr>mount = FALSE, cardtype = 0, last_sector = 0\<rparr>
      \<lparr>miso =
           [0xFF, 0xFF, 0xFF, 0xFF, 0xFF, 0xFF, 0xFF, 0xFF, 0xFF, 0xFF, 0xFF, 0xFF, 0xFF,
            0xFF, 0xFF, 0xFF, 0xFF, 0xFF, 0x01, 0xFF, 0xFF, 0xFF, 0xFF, 0xFF, 0xFF, 0xFF,
            0xFF, 0x01, 0xFF, 0xFF, 0xFF, 0xFF, 0xFF, 0xFF, 0xFF, 0xFF, 0x05, 0xFF, 0xFF,
            0xFF, 0xFF, 0xFF, 0xFF, 0xFF, 0xFF, 0x01, 0xFF, 0xFF, 0xFF, 0xFF, 0xFF, 0xFF,
            0xFF, 0xFF, 0x01, 0xFF, 0xFF, 0xFF, 0xFF, 0xFF, 0xFF, 0xFF, 0xFF, 0x01, 0xFF,
            0xFF, 0xFF, 0xFF, 0xFF, 0xFF, 0xFF, 0xFF, 0x00, 0xFF, 0xFF, 0xFF, 0xFF, 0xFF,
            0xFF, 0xFF, 0xFF, 0x00, 0xFF, 0xFF, 0xFF, 0xFF, 0xFF, 0xFF, 0xFF, 0xFF, 0x00,
            0xFF, 0xFF, 0xFF, 0xFF, 0xFF, 0xFF, 0xFF, 0xFF, 0x00, 0xFE, 0x00, 0x26, 0x00,
            0x32, 0x5F, 0x09, 0x02, 0x00, 0x00, 0x03, 0x80, 0x00, 0x00, 0x00, 0x00, 0x01,
            0x12, 0x34],
       tmr = [False, True, True], wire = []\<rparr> = Some (SD_OK, dev', s')
     \<and> mount dev' = TRUE \<and> cardtype dev' = SDCT_SD1 \<and> last_sector dev' = 511)
   \<and> SD_Sectors_calc SDCT_SD1
           [0x00, 0x26, 0x00, 0x32, 0x5F, 0x09, 0x02, 0x00, 0x00, 0x03, 0x80, 0x00, 0x00,
            0x00, 0x00, 0x01] = 1049088"
proof -
  let ?dev = "\<lparr>mount = FALSE, cardtype = 0, last_sector = 0\<rparr>"
  let ?dev2 = "?dev\<lparr>cardtype := SDCT_SD1, mount := TRUE\<rparr>"
  have ct: "SDCT_SD1 \<noteq> 0" by (simp add: SDCT_SD1_def)
  have cmd9: "CMD9 AND 0x80 = 0" by (simp add: CMD9_def)
  let ?sF = "\<lparr>miso =
           [0xFF, 0xFF, 0xFF, 0xFF, 0xFF, 0xFF, 0xFF, 0xFF, 0xFF, 0xFF, 0xFF, 0xFF, 0xFF,
            0xFF, 0xFF, 0xFF, 0xFF, 0xFF, 0x01, 0xFF, 0xFF, 0xFF, 0xFF, 0xFF, 0xFF, 0xFF,
            0xFF, 0x01, 0xFF, 0xFF, 0xFF, 0xFF, 0xFF, 0xFF, 0xFF, 0xFF, 0x05, 0xFF, 0xFF,
            0xFF, 0xFF, 0xFF, 0xFF, 0xFF, 0xFF, 0x01, 0xFF, 0xFF, 0xFF, 0xFF, 0xFF, 0xFF,
            0xFF, 0xFF, 0x01, 0xFF, 0xFF, 0xFF, 0xFF, 0xFF, 0xFF, 0xFF, 0xFF, 0x01, 0xFF,
            0xFF, 0xFF, 0xFF, 0xFF, 0xFF, 0xFF, 0xFF, 0x00, 0xFF, 0xFF, 0xFF, 0xFF, 0xFF,
            0xFF, 0xFF, 0xFF, 0x00, 0xFF, 0xFF, 0xFF, 0xFF, 0xFF, 0xFF, 0xFF, 0xFF, 0x00,
            0xFF, 0xFF, 0xFF, 0xFF, 0xFF, 0xFF, 0xFF, 0xFF, 0x04],
       tmr = [False, True, True], wire = []\<rparr>"
  obtain w where loopF: "SD_Init_loop 0 0 ?dev ?sF = (SDCT_SD1, ?dev,
      \<lparr>miso = [0xFF, 0xFF, 0xFF, 0xFF, 0xFF, 0xFF, 0xFF, 0xFF, 0x04], tmr = [], wire = w\<rparr>)"
    using SD_Init_SD1_run by blast
  let ?s1 = "\<lparr>miso = [0xFF, 0xFF, 0xFF, 0xFF, 0xFF, 0xFF, 0xFF, 0xFF, 0x04], tmr = [], wire = w\<rparr>"
  have "fst (SD_Send_Cmd CMD9 0 ?s1) = 0x04"
    by (simp add: SD_Send_Cmd_plain [OF cmd9] SD_Send_Frame_cons)
  then obtain u where c9F: "SD_Send_Cmd CMD9 0 ?s1 = (0x04, u)"
    by (cases "SD_Send_Cmd CMD9 0 ?s1") simp
  have r4: "(0x04 :: byte) \<noteq> 0" by simp
  from SD_Init_last_sector [OF loopF ct c9F] r4
  have F: "\<exists>dev' s'. SD_Init ?dev ?sF = Some (SD_OK, dev', s')
     \<and> mount dev' = TRUE \<and> cardtype dev' = SDCT_SD1 \<and> last_sector dev' = 0xFFFF"
    by blast
  let ?csd = "[0x00, 0x26, 0x00, 0x32, 0x5F, 0x09, 0x02, 0x00, 0x00, 0x03, 0x80, 0x00, 0x00,
            0x00, 0x00, 0x01] :: byte list"
  let ?sB = "\<lparr>miso =
           [0xFF, 0xFF, 0xFF, 0xFF, 0xFF, 0xFF, 0xFF, 0xFF, 0xFF, 0xFF, 0xFF, 0xFF, 0xFF,
            0xFF, 0xFF, 0xFF, 0xFF, 0xFF, 0x01, 0xFF, 0xFF, 0xFF, 0xFF, 0xFF, 0xFF, 0xFF,
            0xFF, 0x01, 0xFF, 0xFF, 0xFF, 0xFF, 0xFF, 0xFF, 0xFF, 0xFF, 0x05, 0xFF, 0xFF,
            0xFF, 0xFF, 0xFF, 0xFF, 0xFF, 0xFF, 0x01, 0xFF, 0xFF, 0xFF, 0xFF, 0xFF, 0xFF,
            0xFF, 0xFF, 0x01, 0xFF, 0xFF, 0xFF, 0xFF, 0xFF, 0xFF, 0xFF, 0xFF, 0x01, 0xFF,
            0xFF, 0xFF, 0xFF, 0xFF, 0xFF, 0xFF, 0xFF, 0x00, 0xFF, 0xFF, 0xFF, 0xFF, 0xFF,
            0xFF, 0xFF, 0xFF, 0x00, 0xFF, 0xFF, 0xFF, 0xFF, 0xFF, 0xFF, 0xFF, 0xFF, 0x00,
            0xFF, 0xFF, 0xFF, 0xFF, 0xFF, 0xFF, 0xFF, 0xFF, 0x00, 0xFE, 0x00, 0x26, 0x00,
            0x32, 0x5F, 0x09, 0x02, 0x00, 0x00, 0x03, 0x80, 0x00, 0x00, 0x00, 0x00, 0x01,
            0x12, 0x34],
       tmr = [False, True, True], wire = []\<rparr>"
  obtain v where loopB: "SD_Init_loop 0 0 ?dev ?sB = (SDCT_SD1, ?dev,
      \<lparr>miso = [0xFF, 0xFF, 0xFF, 0xFF, 0xFF, 0xFF, 0xFF, 0xFF, 0x00, 0xFE, 0x00, 0x26, 0x00,
            0x32, 0x5F, 0x09, 0x02, 0x00, 0x00, 0x03, 0x80, 0x00, 0x00, 0x00, 0x00, 0x01,
            0x12, 0x34], tmr = [], wire = v\<rparr>)"
    using SD_Init_SD1_run by blast
  let ?t1 = "\<lparr>miso = [0xFF, 0xFF, 0xFF, 0xFF, 0xFF, 0xFF, 0xFF, 0xFF, 0x00, 0xFE, 0x00, 0x26, 0x00,
            0x32, 0x5F, 0x09, 0x02, 0x00, 0x00, 0x03, 0x80, 0x00, 0x00, 0x00, 0x00, 0x01,
            0x12, 0x34], tmr = [], wire = v\<rparr>"
  obtain v2 where c9B: "SD_Send_Cmd CMD9 0 ?t1 =
      (0, \<lparr>miso = [0xFE, 0x00, 0x26, 0x00, 0x32, 0x5F, 0x09, 0x02, 0x00, 0x00, 0x03, 0x80, 0x00,
            0x00, 0x00, 0x00, 0x01, 0x12, 0x34], tmr = [], wire = v2\<rparr>)"
    using SD_Send_Cmd_accept [OF cmd9, of ?t1 0] by (simp add: rx_def nth_default_def)
  let ?t2 = "\<lparr>miso = [0xFE, 0x00, 0x26, 0x00, 0x32, 0x5F, 0x09, 0x02, 0x00, 0x00, 0x03, 0x80, 0x00,
            0x00, 0x00, 0x00, 0x01, 0x12, 0x34], tmr = [], wire = v2\<rparr>"
  have a0: "\<forall>j<0. rx ?t2 j = 0xFF" by simp
  have b0: "rx ?t2 0 \<noteq> 0xFF" by (simp add: rx_def nth_default_def)
  have m: "map (\<lambda>k. rx ?t2 (Suc 0 + k)) [0..<16] = ?csd"
    by (simp add: rx_def nth_default_def upt_rec)
  have calc: "SD_Sectors_calc SDCT_SD1 ?csd = 1049088"
    by (simp add: SD_Sectors_calc_def SD_Sectors_fields_def SD_Power_Of_Two_def SD_BLK_SIZE_def
        SDCT_SD1_def)
  have nB: "(1049088 :: 32 word) = SD_Sectors_calc SDCT_SD1 (map (\<lambda>k. rx ?t2 (Suc 0 + k)) [0..<16])"
    by (simp only: m calc)
  from SD_Init_last_sector [OF loopB ct c9B, of 0 1049088] a0 b0 nB
  obtain dev' s' where B: "SD_Init ?dev ?sB = Some (SD_OK, dev', s')" "mount dev' = TRUE"
      "cardtype dev' = SDCT_SD1" "unat (last_sector dev') = unat (1049088 - 1 :: 32 word) mod 2 ^ 16"
    by blast
  from B(4) have "unat (last_sector dev') = unat (511 :: 16 word)" by simp
  then have "last_sector dev' = 511" by (simp only: word_unat_eq_iff)
  with B F calc show ?thesis by blast
qed

end
